theory Spec2Isabelle
  imports Main "HOL-Library.AList"
begin

section \<open>Strings as the scripts see them\<close>

text \<open>
  A script string is a list of code units; the model covers the code units below 256
  (\<open>char\<close>), read as Latin-1. \<open>code\<close> is \<open>charCodeAt\<close>.
\<close>

definition code :: "char \<Rightarrow> nat" where
  "code c = of_char c"

definition is_space :: "char \<Rightarrow> bool" where
  \<comment> \<open>the class \<open>\s\<close> of a regular expression and the white space of \<open>trim\<close>:
      TAB, LF, VT, FF, CR, SPACE, NBSP\<close>
  "is_space c = (code c = 9 \<or> code c = 10 \<or> code c = 11 \<or> code c = 12 \<or> code c = 13
                 \<or> code c = 32 \<or> code c = 160)"

definition is_line_terminator :: "char \<Rightarrow> bool" where
  \<comment> \<open>what the dot of a regular expression does not match: LF and CR\<close>
  "is_line_terminator c = (code c = 10 \<or> code c = 13)"

definition is_alpha :: "char \<Rightarrow> bool" where
  "is_alpha c = ((65 \<le> code c \<and> code c \<le> 90) \<or> (97 \<le> code c \<and> code c \<le> 122))"

definition is_digit :: "char \<Rightarrow> bool" where
  "is_digit c = (48 \<le> code c \<and> code c \<le> 57)"

definition is_alnum :: "char \<Rightarrow> bool" where
  "is_alnum c = (is_alpha c \<or> is_digit c)"

definition is_word :: "char \<Rightarrow> bool" where
  \<comment> \<open>the class \<open>\w\<close>, which decides the word boundary \<open>\b\<close>\<close>
  "is_word c = (is_alnum c \<or> c = CHR ''_'')"

definition lower_char :: "char \<Rightarrow> char" where
  \<comment> \<open>A-Z and the Latin-1 capitals (all of 0xC0-0xDE but the multiplication sign) move up by 32\<close>
  "lower_char c =
     (if (65 \<le> code c \<and> code c \<le> 90) \<or> (192 \<le> code c \<and> code c \<le> 222 \<and> code c \<noteq> 215)
      then char_of (code c + 32) else c)"

definition toLowerCase :: "string \<Rightarrow> string" where
  "toLowerCase s = map lower_char s"

definition upper_char :: "char \<Rightarrow> char" where
  \<comment> \<open>only applied to the first letter of a field name, which is an ASCII letter\<close>
  "upper_char c = (if 97 \<le> code c \<and> code c \<le> 122 then char_of (code c - 32) else c)"

fun capitalizeFirst :: "string \<Rightarrow> string" where
  "capitalizeFirst [] = []"
| "capitalizeFirst (c # cs) = upper_char c # cs"

definition trim :: "string \<Rightarrow> string" where
  "trim s = rev (dropWhile is_space (rev (dropWhile is_space s)))"

definition strip_angle :: "string \<Rightarrow> string" where
  \<comment> \<open>\<open>replace(/[<>]/g, '')\<close>\<close>
  "strip_angle s = filter (\<lambda>c. c \<noteq> CHR ''<'' \<and> c \<noteq> CHR ''>'') s"

fun show_nat :: "nat \<Rightarrow> string" where
  \<comment> \<open>a number inside a template literal: its decimal digits\<close>
  "show_nat n = (if n < 10 then [''0123456789'' ! n]
                 else show_nat (n div 10) @ [''0123456789'' ! (n mod 10)])"

declare show_nat.simps [simp del]

fun tails :: "'a list \<Rightarrow> 'a list list" where
  \<comment> \<open>the positions at which an unanchored regular expression may start\<close>
  "tails [] = [[]]"
| "tails (x # xs) = (x # xs) # tails xs"

definition starts_with :: "string \<Rightarrow> string \<Rightarrow> bool" where
  "starts_with p s = (take (length p) s = p)"

fun split_on :: "char \<Rightarrow> string \<Rightarrow> string list" where
  "split_on d [] = [[]]"
| "split_on d (c # cs) =
     (if c = d then [] # split_on d cs
      else (case split_on d cs of [] \<Rightarrow> [[c]] | p # ps \<Rightarrow> (c # p) # ps))"


section \<open>The contact form (main.js)\<close>

subsection \<open>Configuration\<close>

record rule =
  minLength :: "nat option"
  maxLength :: "nat option"
  pattern :: "(string \<Rightarrow> bool) option"

definition name_pattern :: "string \<Rightarrow> bool" where
  \<comment> \<open>\<open>/^[a-zA-Z\s'-]+$/\<close>\<close>
  "name_pattern s =
     (s \<noteq> [] \<and> list_all (\<lambda>c. is_alpha c \<or> is_space c \<or> c = CHR 0x27 \<or> c = CHR ''-'') s)"

definition local_char :: "char \<Rightarrow> bool" where
  \<comment> \<open>the class before the at sign: letters, digits and 20 punctuation characters\<close>
  "local_char c = (is_alnum c \<or> c \<in> set (''.!#$%&*+/=?^_`{|}~-'' @ [CHR 0x27]))"

definition label_ok :: "string \<Rightarrow> bool" where
  \<comment> \<open>\<open>[a-zA-Z0-9](?:[a-zA-Z0-9-]{0,61}[a-zA-Z0-9])?\<close>: 1 to 63 letters, digits
      and hyphens, no hyphen first or last\<close>
  "label_ok l =
     (l \<noteq> [] \<and> length l \<le> 63 \<and> is_alnum (hd l) \<and> is_alnum (last l)
      \<and> list_all (\<lambda>c. is_alnum c \<or> c = CHR ''-'') l)"

definition email_pattern :: "string \<Rightarrow> bool" where
  \<comment> \<open>the pattern of \<open>CONFIG.validation.email\<close>: the local class has no at sign and
      the labels have neither at sign nor dot, so the first at sign and every dot after
      it are the only places where the expression can split the string\<close>
  "email_pattern s =
     (let loc = takeWhile (\<lambda>c. c \<noteq> CHR ''@'') s;
          rest = dropWhile (\<lambda>c. c \<noteq> CHR ''@'') s
      in loc \<noteq> [] \<and> list_all local_char loc \<and> rest \<noteq> []
         \<and> list_all label_ok (split_on (CHR ''.'') (tl rest)))"

record config =
  validation :: "string \<Rightarrow> rule option"
  maxSubmissionsPerHour :: nat
  honeypotFieldName :: string

definition CONFIG :: config where
  "CONFIG = \<lparr>
     validation = (\<lambda>f.
       if f = ''name'' then
         Some \<lparr>minLength = Some 2, maxLength = Some 50, pattern = Some name_pattern\<rparr>
       else if f = ''email'' then
         Some \<lparr>minLength = None, maxLength = None, pattern = Some email_pattern\<rparr>
       else if f = ''subject'' then
         Some \<lparr>minLength = Some 5, maxLength = Some 100, pattern = None\<rparr>
       else if f = ''message'' then
         Some \<lparr>minLength = Some 10, maxLength = Some 1000, pattern = None\<rparr>
       else None),
     maxSubmissionsPerHour = 5,
     honeypotFieldName = ''website'' \<rparr>"


subsection \<open>State of the page and of its collaborators\<close>

record elements =
  nameField :: string
  emailField :: string
  subjectField :: string
  messageField :: string
  honeypot :: string

datatype element = NameField | EmailField | SubjectField | MessageField | HoneypotField

fun getAttribute_name :: "config \<Rightarrow> element \<Rightarrow> string" where
  "getAttribute_name cfg NameField = ''name''"
| "getAttribute_name cfg EmailField = ''email''"
| "getAttribute_name cfg SubjectField = ''subject''"
| "getAttribute_name cfg MessageField = ''message''"
| "getAttribute_name cfg HoneypotField = honeypotFieldName cfg"

fun field_value :: "elements \<Rightarrow> element \<Rightarrow> string" where
  "field_value els NameField = nameField els"
| "field_value els EmailField = emailField els"
| "field_value els SubjectField = subjectField els"
| "field_value els MessageField = messageField els"
| "field_value els HoneypotField = honeypot els"

record formState =
  isSubmitting :: bool
  validationErrors :: "(string \<times> string) list"
  isValid :: bool

text \<open>
  The local storage holds, under \<open>rateLimitKey\<close>, what \<open>saveSubmissionHistory\<close> wrote
  there: a list of times in milliseconds, or nothing yet. \<open>storage_ok\<close> is false where
  access to the storage throws, which both accessors catch.
\<close>

record storage =
  storage_ok :: bool
  stored :: "int list option"

record page =
  els :: elements
  fstate :: formState
  localStorage :: storage

datatype send_result = SendRejects | SendResponse nat

datatype store_result =
    StoreUndefined          \<comment> \<open>\<open>window.supabase\<close> is undefined: no call\<close>
  | StoreFromThrows         \<comment> \<open>building the query throws before any call\<close>
  | StoreInsertThrows       \<comment> \<open>the insert call is rejected\<close>
  | StoreResponds "string option"   \<comment> \<open>the insert call answers, with an error or none\<close>

text \<open>What the surroundings answer during one submission.\<close>

record env =
  now_check :: int            \<comment> \<open>\<open>Date.now()\<close> in \<open>checkRateLimit\<close>\<close>
  now_record :: int           \<comment> \<open>\<open>Date.now()\<close> in \<open>recordSubmission\<close>\<close>
  iso_time :: string          \<comment> \<open>\<open>new Date().toISOString()\<close>\<close>
  userAgent :: string
  form_token :: "string option"
  emailjs_loaded :: bool      \<comment> \<open>\<open>window.emailjs\<close>\<close>
  send_answer :: send_result  \<comment> \<open>what \<open>emailjs.send\<close> resolves to\<close>
  store_answer :: store_result

record formData =
  fd_name :: string
  fd_email :: string
  fd_subject :: string
  fd_message :: string
  fd_timestamp :: string
  fd_userAgent :: string
  fd_formToken :: "string option"

record templateParams =
  from_name :: string
  from_email :: string
  tp_subject :: string
  tp_message :: string
  reply_to :: string
  to_email :: string

record contact_row =
  cr_name :: string
  cr_email :: string
  cr_subject :: string
  cr_message :: string
  cr_user_agent :: string
  cr_created_at :: string

datatype ntype = Success | Error

text \<open>
  The effects of the form's code, in the order in which they happen. The console texts
  are given without their leading pictograph.
\<close>

datatype event =
    FieldUI element bool string    \<comment> \<open>\<open>updateFieldValidation(field, isValid, errorMessage)\<close>\<close>
  | ConsoleWarn string
  | ConsoleError string
  | Notify ntype string            \<comment> \<open>\<open>showNotification(message, type)\<close>\<close>
  | StorageWrite "int list"        \<comment> \<open>\<open>localStorage.setItem(rateLimitKey, ...)\<close>\<close>
  | EmailSend templateParams       \<comment> \<open>\<open>emailjs.send(serviceId, templateId, templateParams)\<close>\<close>
  | StoreInsert contact_row        \<comment> \<open>\<open>from('contact_messages').insert([...])\<close>\<close>

fun is_FieldUI :: "event \<Rightarrow> bool" where
  "is_FieldUI (FieldUI _ _ _) = True"
| "is_FieldUI _ = False"

fun is_Notify :: "event \<Rightarrow> bool" where
  "is_Notify (Notify _ _) = True"
| "is_Notify _ = False"

fun is_EmailSend :: "event \<Rightarrow> bool" where
  "is_EmailSend (EmailSend _) = True"
| "is_EmailSend _ = False"

fun is_StoreInsert :: "event \<Rightarrow> bool" where
  "is_StoreInsert (StoreInsert _) = True"
| "is_StoreInsert _ = False"

fun is_StorageWrite :: "event \<Rightarrow> bool" where
  "is_StorageWrite (StorageWrite _) = True"
| "is_StorageWrite _ = False"


subsection \<open>Field validation\<close>

definition bound :: "nat option \<Rightarrow> nat" where
  \<comment> \<open>a bound that is absent is falsy, as the bound 0 is\<close>
  "bound b = (case b of None \<Rightarrow> 0 | Some m \<Rightarrow> m)"

definition field_verdict :: "rule \<Rightarrow> string \<Rightarrow> string \<Rightarrow> bool \<times> string" where
  \<comment> \<open>the chain of \<open>if\<close>/\<open>else if\<close> of \<open>validateField\<close>: required, minimum, maximum,
      pattern; a falsy bound is skipped\<close>
  "field_verdict v fieldName val =
     (if val = [] then
        (False, capitalizeFirst fieldName @ '' is required'')
      else if bound (minLength v) \<noteq> 0 \<and> length val < bound (minLength v) then
        (False, capitalizeFirst fieldName @ '' must be at least ''
                  @ show_nat (bound (minLength v)) @ '' characters'')
      else if bound (maxLength v) \<noteq> 0 \<and> length val > bound (maxLength v) then
        (False, capitalizeFirst fieldName @ '' must be less than ''
                  @ show_nat (bound (maxLength v)) @ '' characters'')
      else if (case pattern v of None \<Rightarrow> False | Some p \<Rightarrow> \<not> p val) then
        (False,
         if fieldName = ''email'' then ''Please enter a valid email address''
         else if fieldName = ''name'' then
           ''Name can only contain letters, spaces, apostrophes, and hyphens''
         else capitalizeFirst fieldName @ '' format is invalid'')
      else (True, []))"

definition updateFormValidity :: "formState \<Rightarrow> formState" where
  "updateFormValidity fs = fs\<lparr>isValid := (validationErrors fs = [])\<rparr>"

definition validateField :: "config \<Rightarrow> element \<Rightarrow> page \<Rightarrow> bool \<times> page \<times> event list" where
  "validateField cfg field pg =
     (let fieldName = getAttribute_name cfg field;
          val = trim (field_value (els pg) field)
      in if fieldName = [] \<or> fieldName = honeypotFieldName cfg then (True, pg, [])
         else case validation cfg fieldName of
                None \<Rightarrow> (True, pg, [])
              | Some v \<Rightarrow>
                 (let (ok, errorMessage) = field_verdict v fieldName val;
                      fs = fstate pg;
                      fs' = (if ok
                             then fs\<lparr>validationErrors := AList.delete fieldName (validationErrors fs)\<rparr>
                             else fs\<lparr>validationErrors :=
                                       AList.update fieldName errorMessage (validationErrors fs)\<rparr>)
                  in (ok, pg\<lparr>fstate := updateFormValidity fs'\<rparr>,
                      [FieldUI field ok errorMessage])))"

fun validateFields :: "config \<Rightarrow> element list \<Rightarrow> page \<Rightarrow> bool \<times> page \<times> event list" where
  \<comment> \<open>the \<open>forEach\<close> of \<open>validateForm\<close>: every field is validated, none is skipped\<close>
  "validateFields cfg [] pg = (True, pg, [])"
| "validateFields cfg (f # fs) pg =
     (let (ok1, pg1, ev1) = validateField cfg f pg;
          (ok2, pg2, ev2) = validateFields cfg fs pg1
      in (ok1 \<and> ok2, pg2, ev1 @ ev2))"

definition form_inputs :: "element list" where
  \<comment> \<open>the members of \<open>elements\<close> that are INPUT or TEXTAREA, in the order of its keys\<close>
  "form_inputs = [NameField, EmailField, SubjectField, MessageField, HoneypotField]"


subsection \<open>Security checks\<close>

definition getSubmissionHistory :: "page \<Rightarrow> int list" where
  "getSubmissionHistory pg =
     (if storage_ok (localStorage pg)
      then (case stored (localStorage pg) of None \<Rightarrow> [] | Some h \<Rightarrow> h)
      else [])"

definition saveSubmissionHistory :: "int list \<Rightarrow> page \<Rightarrow> page \<times> event list" where
  "saveSubmissionHistory submissions pg =
     (if storage_ok (localStorage pg)
      then (pg\<lparr>localStorage := (localStorage pg)\<lparr>stored := Some submissions\<rparr>\<rparr>,
            [StorageWrite submissions])
      else (pg, [ConsoleWarn ''Could not save submission history'']))"

definition checkRateLimit :: "config \<Rightarrow> env \<Rightarrow> page \<Rightarrow> bool \<times> page \<times> event list" where
  "checkRateLimit cfg e pg =
     (let now = now_check e;
          submissions = getSubmissionHistory pg;
          oneHourAgo = now - (60 * 60 * 1000);
          recentSubmissions = filter (\<lambda>time. time > oneHourAgo) submissions;
          (pg', ev) = saveSubmissionHistory recentSubmissions pg
      in (length recentSubmissions < maxSubmissionsPerHour cfg, pg', ev))"

definition spam_keywords :: "string list" where
  "spam_keywords = [''viagra'', ''casino'', ''lottery'', ''winner'', ''congratulations'',
               ''click here'', ''buy now'']"

definition keyword_at :: "string \<Rightarrow> bool" where
  \<comment> \<open>one of the alternatives matches here and a word boundary follows it\<close>
  "keyword_at s =
     list_ex (\<lambda>k. starts_with k s
                \<and> (case drop (length k) s of [] \<Rightarrow> True | c # _ \<Rightarrow> \<not> is_word c)) spam_keywords"

fun scan_keyword :: "bool \<Rightarrow> string \<Rightarrow> bool" where
  \<comment> \<open>\<open>/\b(viagra|...|buy now)\b/\<close>, tried at every position; the flag tells whether the
      character before the position is a word character\<close>
  "scan_keyword after_word [] = False"
| "scan_keyword after_word (c # cs) =
     ((\<not> after_word \<and> keyword_at (c # cs)) \<or> scan_keyword (is_word c) cs)"

definition url_at :: "string \<Rightarrow> bool" where
  \<comment> \<open>\<open>/https?:\/\/[^\s]+/\<close> at one position\<close>
  "url_at s =
     ((starts_with ''http://'' s
         \<and> (case drop 7 s of [] \<Rightarrow> False | c # _ \<Rightarrow> \<not> is_space c))
      \<or> (starts_with ''https://'' s
         \<and> (case drop 8 s of [] \<Rightarrow> False | c # _ \<Rightarrow> \<not> is_space c)))"

definition run_at :: "string \<Rightarrow> bool" where
  \<comment> \<open>\<open>/(.)\1{10,}/\<close> at one position: a character and at least 10 repetitions of it\<close>
  "run_at s =
     (case s of [] \<Rightarrow> False
      | c # cs \<Rightarrow> \<not> is_line_terminator c \<and> 10 \<le> length (takeWhile (\<lambda>x. x = c) cs))"

definition prohibitedPatterns :: "(string \<Rightarrow> bool) list" where
  \<comment> \<open>the three expressions are built anew at each call, so \<open>test\<close> starts at index 0\<close>
  "prohibitedPatterns =
     [scan_keyword False, \<lambda>s. list_ex url_at (tails s), \<lambda>s. list_ex run_at (tails s)]"

definition checkMessageContent :: "elements \<Rightarrow> bool" where
  "checkMessageContent elems =
     (let message = toLowerCase (messageField elems)
      in \<not> list_ex (\<lambda>p. p message) prohibitedPatterns)"

definition performSecurityChecks :: "config \<Rightarrow> env \<Rightarrow> page \<Rightarrow> bool \<times> page \<times> event list" where
  "performSecurityChecks cfg e pg =
     (if honeypot (els pg) \<noteq> [] then
        (False, pg, [ConsoleWarn ''Bot detected via honeypot''])
      else
        (let (ok, pg1, ev1) = checkRateLimit cfg e pg
         in if \<not> ok then
              (False, pg1,
               ev1 @ [Notify Error ''Too many submissions. Please wait before trying again.''])
            else if \<not> checkMessageContent (els pg1) then
              (False, pg1, ev1 @ [Notify Error ''Message contains prohibited content.''])
            else (True, pg1, ev1)))"

definition validateForm :: "config \<Rightarrow> env \<Rightarrow> page \<Rightarrow> bool \<times> page \<times> event list" where
  "validateForm cfg e pg =
     (let (fieldsValid, pg1, ev1) = validateFields cfg form_inputs pg;
          (secure, pg2, ev2) = performSecurityChecks cfg e pg1
      in (fieldsValid \<and> secure, pg2, ev1 @ ev2))"


subsection \<open>Submission\<close>

definition recordSubmission :: "env \<Rightarrow> page \<Rightarrow> page \<times> event list" where
  "recordSubmission e pg =
     saveSubmissionHistory (getSubmissionHistory pg @ [now_record e]) pg"

definition setSubmittingState :: "bool \<Rightarrow> page \<Rightarrow> page" where
  "setSubmittingState b pg = pg\<lparr>fstate := (fstate pg)\<lparr>isSubmitting := b\<rparr>\<rparr>"

definition collectFormData :: "env \<Rightarrow> page \<Rightarrow> formData" where
  "collectFormData e pg =
     \<lparr> fd_name = trim (nameField (els pg)),
       fd_email = trim (emailField (els pg)),
       fd_subject = trim (subjectField (els pg)),
       fd_message = trim (messageField (els pg)),
       fd_timestamp = iso_time e,
       fd_userAgent = take 100 (userAgent e),
       fd_formToken = form_token e \<rparr>"

definition sendEmail :: "env \<Rightarrow> formData \<Rightarrow> (string + nat) \<times> event list" where
  \<comment> \<open>\<open>Inl\<close> is the error thrown, \<open>Inr\<close> the status of the response returned\<close>
  "sendEmail e fd =
     (if \<not> emailjs_loaded e then (Inl ''EmailJS not available'', [])
      else
        (let templateParams =
               \<lparr> from_name = fd_name fd, from_email = fd_email fd, tp_subject = fd_subject fd,
                 tp_message = fd_message fd, reply_to = fd_email fd,
                 to_email = ''your.email@example.com'' \<rparr>
         in case send_answer e of
              SendRejects \<Rightarrow> (Inl ''rejected'', [EmailSend templateParams])
            | SendResponse status \<Rightarrow>
                (if status \<noteq> 200
                 then (Inl (''EmailJS failed: '' @ show_nat status), [EmailSend templateParams])
                 else (Inr status, [EmailSend templateParams]))))"

definition storeMessage :: "env \<Rightarrow> formData \<Rightarrow> event list" where
  \<comment> \<open>returns in every case: both the error of the answer and a thrown error end in a
      console warning\<close>
  "storeMessage e fd =
     (let row = \<lparr> cr_name = fd_name fd, cr_email = fd_email fd, cr_subject = fd_subject fd,
                  cr_message = fd_message fd, cr_user_agent = fd_userAgent fd,
                  cr_created_at = fd_timestamp fd \<rparr>
      in case store_answer e of
           StoreUndefined \<Rightarrow> []
         | StoreFromThrows \<Rightarrow> [ConsoleWarn ''Database storage failed:'']
         | StoreInsertThrows \<Rightarrow> [StoreInsert row, ConsoleWarn ''Database storage failed:'']
         | StoreResponds None \<Rightarrow> [StoreInsert row]
         | StoreResponds (Some err) \<Rightarrow>
             [StoreInsert row, ConsoleWarn ''Failed to store message in database:''])"

definition resetForm :: "page \<Rightarrow> page" where
  \<comment> \<open>\<open>form.reset()\<close> empties the fields; the errors are cleared, \<open>isValid\<close> is set to
      false and then recomputed by \<open>updateFormValidity\<close>\<close>
  "resetForm pg =
     pg\<lparr> els := \<lparr>nameField = [], emailField = [], subjectField = [], messageField = [],
                  honeypot = []\<rparr>,
         fstate := updateFormValidity ((fstate pg)\<lparr>validationErrors := [], isValid := False\<rparr>) \<rparr>"

definition handleFormSubmit :: "config \<Rightarrow> env \<Rightarrow> page \<Rightarrow> page \<times> event list" where
  "handleFormSubmit cfg e pg =
     (if isSubmitting (fstate pg) then (pg, [])
      else
        (let (valid, pg1, ev1) = validateForm cfg e pg
         in if \<not> valid then (pg1, ev1 @ [Notify Error ''Please correct the errors above''])
            else
              (let pg2 = setSubmittingState True pg1;
                   fd = collectFormData e pg2
               in case sendEmail e fd of
                    (Inl err, ev2) \<Rightarrow>
                      (setSubmittingState False pg2,
                       ev1 @ ev2 @ [ConsoleError ''Form submission error:'',
                                    Notify Error ''Failed to send message. Please try again later.''])
                  | (Inr status, ev2) \<Rightarrow>
                      (let ev3 = storeMessage e fd;
                           (pg3, ev4) = recordSubmission e pg2;
                           pg4 = resetForm pg3
                       in (setSubmittingState False pg4,
                           ev1 @ ev2 @ ev3 @ ev4
                           @ [Notify Success
                                ''Message sent successfully! Thank you for reaching out.''])))))"


section \<open>The data store client (part\_000)\<close>

subsection \<open>Validation and sanitization of a project\<close>

text \<open>
  A property of the object handed in is a string or is missing (\<open>undefined\<close>, \<open>null\<close>);
  \<open>falsy\<close> is what \<open>!x\<close> tests.
\<close>

record projectData =
  pd_name :: "string option"
  pd_description :: "string option"
  pd_url :: "string option"
  pd_image_url :: "string option"
  pd_technologies :: "string list option"
  pd_category :: "string option"
  pd_is_featured :: "bool option"

definition falsy :: "string option \<Rightarrow> bool" where
  "falsy x = (x = None \<or> x = Some [])"

definition out_of_bounds :: "nat \<Rightarrow> nat \<Rightarrow> string option \<Rightarrow> bool" where
  \<comment> \<open>\<open>!x || x.length < lo || x.length > hi\<close>\<close>
  "out_of_bounds lo hi x =
     (case x of None \<Rightarrow> True | Some s \<Rightarrow> s = [] \<or> length s < lo \<or> length s > hi)"

text \<open>
  The constructor \<open>URL\<close> belongs to the browser, not to the repository: the functions
  take as parameter \<open>parses\<close> the set of strings on which it does not throw.
\<close>

definition isValidUrl :: "(string \<Rightarrow> bool) \<Rightarrow> string \<Rightarrow> bool" where
  "isValidUrl parses url = parses url"

definition validateProjectData :: "(string \<Rightarrow> bool) \<Rightarrow> projectData \<Rightarrow> string + unit" where
  "validateProjectData parses d =
     (if out_of_bounds 3 100 (pd_name d) then
        Inl ''Project name must be between 3 and 100 characters''
      else if out_of_bounds 10 500 (pd_description d) then
        Inl ''Project description must be between 10 and 500 characters''
      else if (case pd_url d of None \<Rightarrow> True | Some u \<Rightarrow> u = [] \<or> \<not> isValidUrl parses u) then
        Inl ''Valid project URL is required''
      else Inr ())"

definition sanitizeString :: "string option \<Rightarrow> string" where
  \<comment> \<open>anything that is not a string gives the empty string\<close>
  "sanitizeString x = (case x of None \<Rightarrow> [] | Some s \<Rightarrow> strip_angle (trim s))"

definition validateUrl :: "(string \<Rightarrow> bool) \<Rightarrow> string \<Rightarrow> string + string" where
  "validateUrl parses url =
     (if \<not> isValidUrl parses url then Inl ''Invalid URL format'' else Inr url)"

record payload =
  pl_name :: string
  pl_description :: string
  pl_url :: string
  pl_image_url :: "string option"
  pl_technologies :: "string list"
  pl_category :: string
  pl_is_featured :: bool

record project =
  row_id :: string
  contents :: payload
  is_active :: bool
  created_at :: int
  updated_at :: int

text \<open>
  What the store answers to a call: the pair \<open>{data, error}\<close>. The calls are the effects
  of the client; a failed operation with no call in its trace has failed before any
  network call.
\<close>

record store_answer =
  sa_data :: "project list option"
  sa_error :: "string option"

datatype store_call =
    Insert payload int          \<comment> \<open>\<open>insert([{..., is_active: true, created_at}]).select()\<close>\<close>
  | Update string payload int   \<comment> \<open>\<open>update({..., updated_at}).eq('id', id).select()\<close>\<close>

definition build_payload :: "(string \<Rightarrow> bool) \<Rightarrow> projectData \<Rightarrow> string + payload" where
  \<comment> \<open>the object literal of \<open>createProject\<close> and \<open>updateProject\<close>, its properties
      evaluated in order; \<open>validateUrl\<close> may throw\<close>
  "build_payload parses d =
     (let nm = sanitizeString (pd_name d);
          ds = sanitizeString (pd_description d)
      in case validateUrl parses (case pd_url d of None \<Rightarrow> ''undefined'' | Some u \<Rightarrow> u) of
           Inl err \<Rightarrow> Inl err
         | Inr u \<Rightarrow>
            (case (case pd_image_url d of
                     None \<Rightarrow> Inr None
                   | Some i \<Rightarrow> if i = [] then Inr None
                              else map_sum id Some (validateUrl parses i)) of
               Inl err \<Rightarrow> Inl err
             | Inr img \<Rightarrow>
                 Inr \<lparr> pl_name = nm, pl_description = ds, pl_url = u, pl_image_url = img,
                       pl_technologies = (case pd_technologies d of None \<Rightarrow> [] | Some t \<Rightarrow> t),
                       pl_category =
                         sanitizeString (if falsy (pd_category d) then Some ''web''
                                         else pd_category d),
                       pl_is_featured = (case pd_is_featured d of None \<Rightarrow> False | Some b \<Rightarrow> b) \<rparr>))"

definition first_row :: "store_answer \<Rightarrow> string + project option" where
  \<comment> \<open>\<open>if (error) throw error; return data[0]\<close>\<close>
  "first_row a =
     (case sa_error a of
        Some err \<Rightarrow> Inl err
      | None \<Rightarrow> (case sa_data a of
                   None \<Rightarrow> Inl ''TypeError''
                 | Some [] \<Rightarrow> Inr None
                 | Some (r # _) \<Rightarrow> Inr (Some r)))"

definition createProject ::
  "(string \<Rightarrow> bool) \<Rightarrow> int \<Rightarrow> store_answer \<Rightarrow> projectData
     \<Rightarrow> (string + project option) \<times> store_call list" where
  "createProject parses now answer d =
     (case validateProjectData parses d of
        Inl err \<Rightarrow> (Inl err, [])
      | Inr _ \<Rightarrow>
         (case build_payload parses d of
            Inl err \<Rightarrow> (Inl err, [])
          | Inr pl \<Rightarrow> (first_row answer, [Insert pl now])))"

definition updateProject ::
  "(string \<Rightarrow> bool) \<Rightarrow> int \<Rightarrow> store_answer \<Rightarrow> string \<Rightarrow> projectData
     \<Rightarrow> (string + project option) \<times> store_call list" where
  "updateProject parses now answer i d =
     (case validateProjectData parses d of
        Inl err \<Rightarrow> (Inl err, [])
      | Inr _ \<Rightarrow>
         (case build_payload parses d of
            Inl err \<Rightarrow> (Inl err, [])
          | Inr pl \<Rightarrow> (first_row answer, [Update i pl now])))"

text \<open>
  The order of the specification, for comparison: the string fields are sanitized first
  and the sanitized object is validated.
\<close>

definition sanitize_fields :: "projectData \<Rightarrow> projectData" where
  "sanitize_fields d =
     d\<lparr> pd_name := Some (sanitizeString (pd_name d)),
        pd_description := Some (sanitizeString (pd_description d)) \<rparr>"

definition createProject_sanitize_first ::
  "(string \<Rightarrow> bool) \<Rightarrow> int \<Rightarrow> store_answer \<Rightarrow> projectData
     \<Rightarrow> (string + project option) \<times> store_call list" where
  "createProject_sanitize_first parses now answer d =
     createProject parses now answer (sanitize_fields d)"


subsection \<open>Reading and soft-deleting projects\<close>

text \<open>
  Modelled from the spec: the hosted data store is a collaborator whose code is not in
  the repository. Section 6 describes it as table-shaped collections reachable through
  a query, insert, update and soft-delete interface, filtered by an \<open>is_active\<close> flag and
  ordered by creation time descending; the schema of the repository adds the trigger
  that stamps \<open>updated_at\<close> on every updated row. A call that the store answers with an
  error leaves the table as it is.
\<close>

definition store_update_inactive :: "string \<Rightarrow> int \<Rightarrow> project list \<Rightarrow> project list" where
  \<comment> \<open>\<open>update({ is_active: false }).eq('id', id)\<close>\<close>
  "store_update_inactive i now tbl =
     map (\<lambda>r. if row_id r = i then r\<lparr>is_active := False, updated_at := now\<rparr> else r) tbl"

record filters =
  f_limit :: "nat option"
  f_category :: "string option"

definition store_select :: "filters \<Rightarrow> project list \<Rightarrow> project list" where
  \<comment> \<open>\<open>select('*').eq('is_active', true).order('created_at', {ascending: false})\<close>, then
      \<open>limit\<close> and \<open>eq('category', ...)\<close> where the filter is truthy\<close>
  "store_select f tbl =
     (let rows = filter (\<lambda>r. is_active r
                     \<and> (falsy (f_category f) \<or> Some (pl_category (contents r)) = f_category f)) tbl;
          ordered = sort_key (\<lambda>r. - created_at r) rows
      in case f_limit f of
           None \<Rightarrow> ordered
         | Some n \<Rightarrow> if n = 0 then ordered else take n ordered)"

definition getProjects :: "filters \<Rightarrow> string option \<Rightarrow> project list \<Rightarrow> project list" where
  \<comment> \<open>an error of the store is caught and gives the empty list\<close>
  "getProjects f store_error tbl =
     (case store_error of Some err \<Rightarrow> [] | None \<Rightarrow> store_select f tbl)"

definition deleteProject ::
  "string option \<Rightarrow> int \<Rightarrow> string \<Rightarrow> project list \<Rightarrow> (string + bool) \<times> project list" where
  "deleteProject store_error now i tbl =
     (case store_error of
        Some err \<Rightarrow> (Inl err, tbl)
      | None \<Rightarrow> (Inr True, store_update_inactive i now tbl))"


subsection \<open>Admin login and the second factor\<close>

record admin_config =
  maxFailedAttempts :: nat
  require2FA :: bool

definition SUPABASE_CONFIG :: admin_config where
  "SUPABASE_CONFIG = \<lparr> maxFailedAttempts = 3, require2FA = True \<rparr>"

record user =
  user_id :: string
  user_email :: string

record session =
  session_id :: string
  session_user :: user
  createdAt :: int
  is2FAVerified :: bool

record admin_state =
  adminSession :: "session option"

record credentials =
  email :: "string option"
  password :: "string option"

datatype 'a answer = Rejects | Resolves 'a

datatype signIn_answer = SignInError string | SignedIn user string

text \<open>
  What the collaborators answer during one login. A query ending in \<open>single()\<close>
  resolves to the row if exactly one row matches and to \<open>null\<close> otherwise (here
  \<open>Some ()\<close> and \<open>None\<close>); the query of the failed attempts resolves to the number of
  rows found, or to \<open>null\<close>. The address of the visitor only travels inside these
  queries, and \<open>getUserIP\<close> never throws.
\<close>

record login_env =
  blocked_answer :: "unit option answer"    \<comment> \<open>active row of \<open>blocked_ips\<close> for the address\<close>
  attempts_answer :: "nat option answer"    \<comment> \<open>failed rows of \<open>login_attempts\<close>, last hour\<close>
  signIn_result :: signIn_answer            \<comment> \<open>\<open>auth.signInWithPassword\<close>\<close>
  admin_answer :: "unit option answer"      \<comment> \<open>active row of \<open>admin_users\<close> for the user\<close>
  new_session_id :: string                  \<comment> \<open>\<open>generateSessionId()\<close>\<close>
  login_now :: int                          \<comment> \<open>\<open>Date.now()\<close> in \<open>createAdminSession\<close>\<close>

datatype auth_event =
    BlockedQuery               \<comment> \<open>the query of \<open>isIPBlocked\<close>\<close>
  | AttemptsQuery              \<comment> \<open>the query of \<open>getFailedLoginAttempts\<close>\<close>
  | BlockInsert                \<comment> \<open>\<open>blockIP\<close>: insert into \<open>blocked_ips\<close>\<close>
  | AttemptInsert              \<comment> \<open>\<open>recordFailedLogin\<close>: insert into \<open>login_attempts\<close>\<close>
  | AttemptsDelete             \<comment> \<open>\<open>clearFailedLoginAttempts\<close>\<close>
  | SignIn string string       \<comment> \<open>\<open>auth.signInWithPassword({email, password})\<close>\<close>
  | AdminQuery string          \<comment> \<open>the query of \<open>verifyAdminPrivileges(userId)\<close>\<close>
  | SignOut                    \<comment> \<open>\<open>auth.signOut()\<close>\<close>
  | Send2FA string             \<comment> \<open>\<open>send2FACode(email)\<close>\<close>

record login_result =
  lr_user :: user
  lr_session :: string
  requires2FA :: bool

definition isIPBlocked :: "login_env \<Rightarrow> bool" where
  "isIPBlocked e = (case blocked_answer e of Rejects \<Rightarrow> False | Resolves d \<Rightarrow> d \<noteq> None)"

definition getFailedLoginAttempts :: "login_env \<Rightarrow> nat" where
  "getFailedLoginAttempts e =
     (case attempts_answer e of Rejects \<Rightarrow> 0 | Resolves None \<Rightarrow> 0 | Resolves (Some n) \<Rightarrow> n)"

definition verifyAdminPrivileges :: "login_env \<Rightarrow> string \<Rightarrow> bool" where
  "verifyAdminPrivileges e userId =
     (case admin_answer e of Rejects \<Rightarrow> False | Resolves d \<Rightarrow> d \<noteq> None)"

definition createAdminSession :: "login_env \<Rightarrow> user \<Rightarrow> session" where
  "createAdminSession e u =
     \<lparr> session_id = new_session_id e, session_user = u, createdAt = login_now e,
       is2FAVerified = False \<rparr>"

definition adminLogin ::
  "admin_config \<Rightarrow> login_env \<Rightarrow> credentials \<Rightarrow> admin_state
     \<Rightarrow> (string + login_result) \<times> admin_state \<times> auth_event list" where
  "adminLogin cfg e c st =
     (if isIPBlocked e then
        (Inl ''Access denied: IP address is blocked'', st, [BlockedQuery])
      else if getFailedLoginAttempts e \<ge> maxFailedAttempts cfg then
        (Inl ''Too many failed attempts. IP address has been blocked.'', st,
         [BlockedQuery, AttemptsQuery, BlockInsert])
      else if falsy (email c) \<or> falsy (password c) then
        (Inl ''Email and password are required'', st,
         [BlockedQuery, AttemptsQuery, AttemptInsert])
      else
        (let ev1 = [BlockedQuery, AttemptsQuery,
                    SignIn (case email c of None \<Rightarrow> [] | Some m \<Rightarrow> m)
                           (case password c of None \<Rightarrow> [] | Some w \<Rightarrow> w)]
         in case signIn_result e of
              SignInError err \<Rightarrow> (Inl err, st, ev1 @ [AttemptInsert])
            | SignedIn u tok \<Rightarrow>
                (if \<not> verifyAdminPrivileges e (user_id u) then
                   (Inl ''Access denied: Admin privileges required'', st,
                    ev1 @ [AdminQuery (user_id u), SignOut, AttemptInsert])
                 else
                   (Inr \<lparr> lr_user = u, lr_session = tok, requires2FA = require2FA cfg \<rparr>,
                    st\<lparr>adminSession := Some (createAdminSession e u)\<rparr>,
                    ev1 @ [AdminQuery (user_id u), AttemptsDelete]
                        @ (if require2FA cfg then [Send2FA (user_email u)] else [])))))"

definition validate2FACode :: "string \<Rightarrow> string \<Rightarrow> bool" where
  "validate2FACode mail c = (c = ''123456'')"

definition verify2FACode :: "string \<Rightarrow> admin_state \<Rightarrow> (string + bool) \<times> admin_state" where
  "verify2FACode c st =
     (case adminSession st of
        None \<Rightarrow> (Inl ''No active admin session'', st)
      | Some s \<Rightarrow>
          if \<not> validate2FACode (user_email (session_user s)) c then (Inl ''Invalid 2FA code'', st)
          else (Inr True, st\<lparr>adminSession := Some (s\<lparr>is2FAVerified := True\<rparr>)\<rparr>))"

definition adminLogout :: "admin_state \<Rightarrow> bool \<times> admin_state \<times> auth_event list" where
  "adminLogout st = (True, st\<lparr>adminSession := None\<rparr>, [SignOut])"

definition onAuthStateChange :: "string \<Rightarrow> admin_state \<Rightarrow> admin_state" where
  \<comment> \<open>the listener of \<open>setupAuthStateListener\<close>\<close>
  "onAuthStateChange ev st = (if ev = ''SIGNED_OUT'' then st\<lparr>adminSession := None\<rparr> else st)"

definition isAdminLoggedIn :: "admin_state \<Rightarrow> bool" where
  "isAdminLoggedIn st =
     (case adminSession st of None \<Rightarrow> False | Some s \<Rightarrow> is2FAVerified s)"

text \<open>The operations that touch the admin session, and a run of them.\<close>

datatype admin_op =
    OpLogin login_env credentials
  | OpVerify string
  | OpLogout
  | OpAuthEvent string

fun admin_step :: "admin_config \<Rightarrow> admin_state \<Rightarrow> admin_op \<Rightarrow> admin_state" where
  "admin_step cfg st (OpLogin e c) = fst (snd (adminLogin cfg e c st))"
| "admin_step cfg st (OpVerify c) = snd (verify2FACode c st)"
| "admin_step cfg st OpLogout = fst (snd (adminLogout st))"
| "admin_step cfg st (OpAuthEvent ev) = onAuthStateChange ev st"


section \<open>Notions used in the statements\<close>

subsection \<open>Contact form\<close>

definition field_passes :: "config \<Rightarrow> elements \<Rightarrow> element \<Rightarrow> bool" where
  \<comment> \<open>the verdict of \<open>validateField\<close> on a field, as a function of the values alone\<close>
  "field_passes cfg vals f =
     (let fieldName = getAttribute_name cfg f
      in fieldName = [] \<or> fieldName = honeypotFieldName cfg
         \<or> (case validation cfg fieldName of
               None \<Rightarrow> True
             | Some v \<Rightarrow> fst (field_verdict v fieldName (trim (field_value vals f)))))"



definition sent :: "event list \<Rightarrow> bool" where
  "sent tr = (list_ex is_EmailSend tr
              \<and> Notify Success ''Message sent successfully! Thank you for reaching out.'' \<in> set tr)"




definition recent :: "env \<Rightarrow> page \<Rightarrow> int list" where
  \<comment> \<open>the stored times that are less than one hour old when the rate limit is checked\<close>
  "recent e pg = filter (\<lambda>t. now_check e - 60 * 60 * 1000 < t) (getSubmissionHistory pg)"


definition validateForm_security_first ::
  "config \<Rightarrow> env \<Rightarrow> page \<Rightarrow> bool \<times> page \<times> event list" where
  \<comment> \<open>the order of the specification, for comparison: honeypot, rate limit and content
      check first, the fields after them\<close>
  "validateForm_security_first cfg e pg =
     (let (secure, pg1, ev1) = performSecurityChecks cfg e pg;
          (fieldsValid, pg2, ev2) = validateFields cfg form_inputs pg1
      in (fieldsValid \<and> secure, pg2, ev1 @ ev2))"

definition contains_keyword :: "string \<Rightarrow> bool" where
  \<comment> \<open>a denylisted word or phrase, standing as a whole word\<close>
  "contains_keyword m =
     (\<exists>xs k ys. m = xs @ k @ ys \<and> k \<in> set spam_keywords
        \<and> (xs = [] \<or> \<not> is_word (last xs)) \<and> (ys = [] \<or> \<not> is_word (hd ys)))"

definition contains_url :: "string \<Rightarrow> bool" where
  \<comment> \<open>\<open>http://\<close> or \<open>https://\<close> followed by a character that is not white space\<close>
  "contains_url m =
     (\<exists>xs c ys. (m = xs @ ''http://'' @ c # ys \<or> m = xs @ ''https://'' @ c # ys)
        \<and> \<not> is_space c)"

definition contains_run :: "nat \<Rightarrow> string \<Rightarrow> bool" where
  \<comment> \<open>\<open>n\<close> consecutive copies of one character that is not a line terminator\<close>
  "contains_run n m =
     (\<exists>xs c ys. m = xs @ replicate n c @ ys \<and> \<not> is_line_terminator c)"

subsection \<open>Concrete inputs\<close>

definition idle :: formState where
  "idle = \<lparr> isSubmitting = False, validationErrors = [], isValid = False \<rparr>"

definition fresh_storage :: storage where
  "fresh_storage = \<lparr> storage_ok = True, stored = None \<rparr>"

definition good_values :: elements where
  "good_values = \<lparr> nameField = ''Jo'', emailField = ''jo@example.com'',
                   subjectField = ''Hello there'',
                   messageField = ''I would like to talk about a project.'',
                   honeypot = [] \<rparr>"

definition good_page :: page where
  "good_page = \<lparr> els = good_values, fstate = idle, localStorage = fresh_storage \<rparr>"

definition env_at :: "int \<Rightarrow> env" where
  \<comment> \<open>a submission checked at time \<open>t\<close> and recorded 100 ms later, with working services\<close>
  "env_at t = \<lparr> now_check = t, now_record = t + 100, iso_time = ''2025-01-01T00:00:00.000Z'',
                userAgent = ''Mozilla/5.0'', form_token = Some ''form_1_abc'',
                emailjs_loaded = True, send_answer = SendResponse 200,
                store_answer = StoreResponds None \<rparr>"

definition bot_page :: page where
  \<comment> \<open>the good page with the hidden field filled in and the name left empty\<close>
  "bot_page = good_page\<lparr> els := good_values\<lparr> nameField := [], honeypot := ''bot'' \<rparr> \<rparr>"

definition short_name_page :: page where
  \<comment> \<open>the good page with a name of one character\<close>
  "short_name_page = good_page\<lparr> els := good_values\<lparr> nameField := ''J'' \<rparr> \<rparr>"

definition empty_form :: elements where
  "empty_form = \<lparr> nameField = [], emailField = [], subjectField = [], messageField = [],
                  honeypot = [] \<rparr>"




subsection \<open>Data store client\<close>

text \<open>
  Modelled from the spec: the parser behind the constructor \<open>URL\<close> is not in the
  repository; section 3 asks that the URL of a project "must parse as an absolute URL".
  This instance, used at concrete inputs only, is the first rule of an absolute URL: a
  scheme (a letter, then letters, digits, plus, hyphen or dot) closed by a colon.
\<close>

definition scheme_rule :: "string \<Rightarrow> bool" where
  "scheme_rule u =
     (let sch = takeWhile (\<lambda>c. c \<noteq> CHR '':'') u
      in sch \<noteq> [] \<and> length sch < length u \<and> is_alpha (hd sch)
         \<and> list_all (\<lambda>c. is_alnum c \<or> c = CHR ''+'' \<or> c = CHR ''-'' \<or> c = CHR ''.'') sch)"

definition good_project :: projectData where
  "good_project = \<lparr> pd_name = Some ''Portfolio'', pd_description = Some ''A personal site'',
                    pd_url = Some ''https://example.com'', pd_image_url = None,
                    pd_technologies = Some [''js''], pd_category = Some ''web'',
                    pd_is_featured = Some False \<rparr>"

definition no_answer :: store_answer where
  "no_answer = \<lparr> sa_data = Some [], sa_error = None \<rparr>"

definition one_project :: project where
  "one_project = \<lparr> row_id = ''p1'',
                   contents = \<lparr> pl_name = ''Portfolio'', pl_description = ''A personal site'',
                                pl_url = ''https://example.com'', pl_image_url = None,
                                pl_technologies = [''js''], pl_category = ''web'',
                                pl_is_featured = False \<rparr>,
                   is_active = True, created_at = 1000, updated_at = 1000 \<rparr>"

definition no_filters :: filters where
  "no_filters = \<lparr> f_limit = None, f_category = None \<rparr>"

definition alice :: user where
  "alice = \<lparr> user_id = ''u1'', user_email = ''alice@example.com'' \<rparr>"

definition alice_credentials :: credentials where
  "alice_credentials = \<lparr> email = Some ''alice@example.com'', password = Some ''secret'' \<rparr>"

definition login_env_for :: "unit option \<Rightarrow> login_env" where
  \<comment> \<open>the address is not blocked, no attempt has failed, the credentials of alice are
      right; the argument is the answer of the admin-membership query\<close>
  "login_env_for membership =
     \<lparr> blocked_answer = Resolves None, attempts_answer = Resolves (Some 0),
       signIn_result = SignedIn alice ''token'', admin_answer = Resolves membership,
       new_session_id = ''session_1_abc'', login_now = 1000 \<rparr>"

definition signed_out :: admin_state where
  "signed_out = \<lparr> adminSession = None \<rparr>"


section \<open>Properties of the contact form\<close>

lemma validateField_frame:
  assumes "validateField cfg f pg = (ok, pg', ev)"
  shows "els pg' = els pg \<and> localStorage pg' = localStorage pg
         \<and> isSubmitting (fstate pg') = isSubmitting (fstate pg) \<and> list_all is_FieldUI ev"
  using assms
  by (auto simp: validateField_def Let_def updateFormValidity_def
           split: if_splits option.splits prod.splits)

lemma validateField_verdict:
  "fst (validateField cfg f pg) = field_passes cfg (els pg) f"
  by (auto simp: validateField_def field_passes_def Let_def split: option.splits prod.splits)

lemma validateFields_frame:
  "validateFields cfg fs pg = (ok, pg', ev) \<Longrightarrow>
     els pg' = els pg \<and> localStorage pg' = localStorage pg
     \<and> isSubmitting (fstate pg') = isSubmitting (fstate pg) \<and> list_all is_FieldUI ev
     \<and> ok = list_all (field_passes cfg (els pg)) fs"
proof (induction fs arbitrary: pg ok pg' ev)
  case Nil
  then show ?case by simp
next
  case (Cons f fs)
  obtain ok1 pg1 ev1 where a: "validateField cfg f pg = (ok1, pg1, ev1)"
    by (cases "validateField cfg f pg") auto
  obtain ok2 pg2 ev2 where b: "validateFields cfg fs pg1 = (ok2, pg2, ev2)"
    by (cases "validateFields cfg fs pg1") auto
  from Cons.prems a b have c: "pg' = pg2" "ev = ev1 @ ev2" "ok = (ok1 \<and> ok2)" by simp_all
  from validateField_verdict [of cfg f pg] a have d: "ok1 = field_passes cfg (els pg) f"
    by simp
  from validateField_frame [OF a] Cons.IH [OF b] c d show ?case by simp
qed

lemma FieldUI_only:
  "list_all is_FieldUI ev \<Longrightarrow>
     \<not> list_ex is_EmailSend ev \<and> \<not> list_ex is_StoreInsert ev \<and> \<not> list_ex is_StorageWrite ev
     \<and> filter is_Notify ev = []"
proof (induction ev)
  case Nil
  then show ?case by simp
next
  case (Cons x ev)
  then show ?case by (cases x) simp_all
qed

lemma checkRateLimit_eq:
  "checkRateLimit cfg e pg =
     (length (recent e pg) < maxSubmissionsPerHour cfg,
      fst (saveSubmissionHistory (recent e pg) pg), snd (saveSubmissionHistory (recent e pg) pg))"
  by (simp add: checkRateLimit_def recent_def Let_def split: prod.splits)

lemma saveSubmissionHistory_frame:
  "els (fst (saveSubmissionHistory h pg)) = els pg
   \<and> fstate (fst (saveSubmissionHistory h pg)) = fstate pg
   \<and> storage_ok (localStorage (fst (saveSubmissionHistory h pg))) = storage_ok (localStorage pg)
   \<and> \<not> list_ex is_EmailSend (snd (saveSubmissionHistory h pg))
   \<and> \<not> list_ex is_StoreInsert (snd (saveSubmissionHistory h pg))
   \<and> \<not> list_ex is_FieldUI (snd (saveSubmissionHistory h pg))
   \<and> filter is_Notify (snd (saveSubmissionHistory h pg)) = []"
  by (simp add: saveSubmissionHistory_def)

lemma saveSubmissionHistory_history:
  "getSubmissionHistory (fst (saveSubmissionHistory h pg)) =
     (if storage_ok (localStorage pg) then h else [])"
  by (simp add: saveSubmissionHistory_def getSubmissionHistory_def)

lemma performSecurityChecks_eq:
  "performSecurityChecks cfg e pg =
     (if honeypot (els pg) \<noteq> [] then (False, pg, [ConsoleWarn ''Bot detected via honeypot''])
      else
        (length (recent e pg) < maxSubmissionsPerHour cfg \<and> checkMessageContent (els pg),
         fst (saveSubmissionHistory (recent e pg) pg),
         snd (saveSubmissionHistory (recent e pg) pg)
         @ (if \<not> length (recent e pg) < maxSubmissionsPerHour cfg then
              [Notify Error ''Too many submissions. Please wait before trying again.'']
            else if \<not> checkMessageContent (els pg) then
              [Notify Error ''Message contains prohibited content.'']
            else [])))"
  using saveSubmissionHistory_frame [of "recent e pg" pg]
  by (simp add: performSecurityChecks_def checkRateLimit_eq case_prod_beta)



lemma validateForm_eq:
  "validateForm cfg e pg =
     (let r = validateFields cfg form_inputs pg; q = performSecurityChecks cfg e (fst (snd r))
      in (fst r \<and> fst q, fst (snd q), snd (snd r) @ snd (snd q)))"
  by (simp add: validateForm_def Let_def case_prod_beta)

lemma validateForm_rejects_bot:
  assumes "honeypot (els pg) \<noteq> []"
  shows "\<exists>pg1 ev1. validateForm cfg e pg = (False, pg1, ev1 @ [ConsoleWarn ''Bot detected via honeypot''])
           \<and> list_all is_FieldUI ev1 \<and> els pg1 = els pg \<and> localStorage pg1 = localStorage pg"
proof -
  obtain ok pg1 ev1 where a: "validateFields cfg form_inputs pg = (ok, pg1, ev1)"
    by (cases "validateFields cfg form_inputs pg") auto
  note f = validateFields_frame [OF a]
  with assms have "honeypot (els pg1) \<noteq> []" by simp
  then have "validateForm cfg e pg = (False, pg1, ev1 @ [ConsoleWarn ''Bot detected via honeypot''])"
    by (simp add: validateForm_eq a performSecurityChecks_eq)
  with f show ?thesis by blast
qed

text \<open>
  Claim C1, as amended. A submission whose hidden field is not empty is rejected: the
  security check answers false with a console warning and no notification of its own,
  no mail is sent, nothing is inserted in the store, the stored history and the fields
  are left as they are. The submission is not dropped silently: unless a submission is
  already in flight, \<open>handleFormSubmit\<close> shows the error notification
  "Please correct the errors above".
\<close>

theorem honeypot_rejects_without_calls:
  assumes "honeypot (els pg) \<noteq> []"
  shows "performSecurityChecks cfg e pg = (False, pg, [ConsoleWarn ''Bot detected via honeypot''])
         \<and> (case handleFormSubmit cfg e pg of
              (pg', tr) \<Rightarrow>
                \<not> list_ex is_EmailSend tr \<and> \<not> list_ex is_StoreInsert tr
                \<and> \<not> list_ex is_StorageWrite tr
                \<and> localStorage pg' = localStorage pg \<and> els pg' = els pg
                \<and> filter is_Notify tr =
                    (if isSubmitting (fstate pg) then []
                     else [Notify Error ''Please correct the errors above'']))"
proof -
  from assms have a: "performSecurityChecks cfg e pg
                       = (False, pg, [ConsoleWarn ''Bot detected via honeypot''])"
    by (simp add: performSecurityChecks_def)
  from validateForm_rejects_bot [OF assms, of cfg e] obtain pg1 ev1
    where b: "validateForm cfg e pg = (False, pg1, ev1 @ [ConsoleWarn ''Bot detected via honeypot''])"
      and c: "list_all is_FieldUI ev1" and d: "els pg1 = els pg"
      and f: "localStorage pg1 = localStorage pg"
    by blast
  from FieldUI_only [OF c] have g: "\<not> list_ex is_EmailSend ev1" "\<not> list_ex is_StoreInsert ev1"
    "\<not> list_ex is_StorageWrite ev1" "filter is_Notify ev1 = []" by simp_all
  show ?thesis
  proof (cases "isSubmitting (fstate pg)")
    case True
    with a show ?thesis by (simp add: handleFormSubmit_def)
  next
    case False
    with a b d f g show ?thesis by (simp add: handleFormSubmit_def)
  qed
qed

theorem honeypot_rejects_without_calls_witness:
  "honeypot (els bot_page) \<noteq> []
   \<and> performSecurityChecks CONFIG (env_at 5000000) bot_page
       = (False, bot_page, [ConsoleWarn ''Bot detected via honeypot''])
   \<and> (case handleFormSubmit CONFIG (env_at 5000000) bot_page of
        (pg', tr) \<Rightarrow>
          \<not> list_ex is_EmailSend tr \<and> \<not> list_ex is_StoreInsert tr
          \<and> \<not> list_ex is_StorageWrite tr
          \<and> localStorage pg' = localStorage bot_page \<and> els pg' = els bot_page
          \<and> filter is_Notify tr =
              (if isSubmitting (fstate bot_page) then []
               else [Notify Error ''Please correct the errors above'']))"
proof -
  have h: "honeypot (els bot_page) \<noteq> []"
    by (simp add: bot_page_def good_page_def good_values_def)
  from honeypot_rejects_without_calls
         [OF h, where cfg = CONFIG and e = "env_at 5000000"] h
  show ?thesis by blast
qed

theorem honeypot_not_silent_counterexample:
  "honeypot (els bot_page) \<noteq> []
   \<and> snd (handleFormSubmit CONFIG (env_at 5000000) bot_page) =
       [FieldUI NameField False ''Name is required'', FieldUI EmailField True [],
        FieldUI SubjectField True [], FieldUI MessageField True [],
        ConsoleWarn ''Bot detected via honeypot'',
        Notify Error ''Please correct the errors above'']"
  by code_simp

text \<open>
  Claim C5, as amended. \<open>validateForm\<close> first validates every field (length bounds and
  patterns), whatever the outcome, and only then runs the security checks, on the same
  field values: the honeypot check, which ends the checks with a console warning when
  the hidden field is filled in; otherwise the rate-limit check, which writes the recent
  history back and ends the checks when the ceiling is reached; otherwise the content
  check. The form is valid when all of them pass.
\<close>

theorem validateForm_fields_then_security:
  "case validateForm cfg e pg of
     (valid, pg', tr) \<Rightarrow>
       (\<exists>fs ss. tr = fs @ ss
          \<and> fs = snd (snd (validateFields cfg form_inputs pg)) \<and> list_all is_FieldUI fs
          \<and> (honeypot (els pg) \<noteq> [] \<longrightarrow>
               ss = [ConsoleWarn ''Bot detected via honeypot'']
               \<and> localStorage pg' = localStorage pg)
          \<and> (honeypot (els pg) = [] \<longrightarrow>
               ss = snd (saveSubmissionHistory (recent e pg) pg)
                    @ (if \<not> length (recent e pg) < maxSubmissionsPerHour cfg then
                         [Notify Error ''Too many submissions. Please wait before trying again.'']
                       else if \<not> checkMessageContent (els pg) then
                         [Notify Error ''Message contains prohibited content.'']
                       else [])
               \<and> localStorage pg' = localStorage (fst (saveSubmissionHistory (recent e pg) pg))))
       \<and> valid = (list_all (field_passes cfg (els pg)) form_inputs \<and> honeypot (els pg) = []
                  \<and> length (recent e pg) < maxSubmissionsPerHour cfg
                  \<and> checkMessageContent (els pg))"
proof -
  obtain ok pg1 ev1 where a: "validateFields cfg form_inputs pg = (ok, pg1, ev1)"
    by (cases "validateFields cfg form_inputs pg") auto
  note f = validateFields_frame [OF a]
  from f have h: "getSubmissionHistory pg1 = getSubmissionHistory pg"
    by (simp add: getSubmissionHistory_def)
  then have r: "recent e pg1 = recent e pg" by (simp add: recent_def)
  from f have s: "snd (saveSubmissionHistory (recent e pg) pg1)
                    = snd (saveSubmissionHistory (recent e pg) pg)"
    "localStorage (fst (saveSubmissionHistory (recent e pg) pg1))
       = localStorage (fst (saveSubmissionHistory (recent e pg) pg))"
    by (simp_all add: saveSubmissionHistory_def)
  show ?thesis
  proof (cases "honeypot (els pg) = []")
    case True
    with f have "honeypot (els pg1) = []" by simp
    with True f r s show ?thesis
      by (simp add: validateForm_eq a performSecurityChecks_eq)
  next
    case False
    with f have "honeypot (els pg1) \<noteq> []" by simp
    with False f show ?thesis
      by (simp add: validateForm_eq a performSecurityChecks_eq)
  qed
qed


theorem validateForm_fields_then_security_witness:
  "honeypot (els bot_page) \<noteq> []
   \<and> (\<exists>fs. snd (snd (validateForm CONFIG (env_at 5000000) bot_page))
              = fs @ [ConsoleWarn ''Bot detected via honeypot'']
           \<and> list_all is_FieldUI fs)
   \<and> honeypot (els good_page) = []
   \<and> fst (validateForm CONFIG (env_at 5000000) good_page)"
proof -
  have h1: "honeypot (els bot_page) \<noteq> []"
    by (simp add: bot_page_def good_page_def good_values_def)
  have h2: "honeypot (els good_page) = []"
    by (simp add: good_page_def good_values_def)
  have h3: "list_all (field_passes CONFIG (els good_page)) form_inputs"
    by code_simp
  have h4: "length (recent (env_at 5000000) good_page) < maxSubmissionsPerHour CONFIG"
    by code_simp
  have h5: "checkMessageContent (els good_page)"
    by code_simp
  from validateForm_fields_then_security
         [where cfg = CONFIG and e = "env_at 5000000" and pg = bot_page] h1
  have a: "\<exists>fs. snd (snd (validateForm CONFIG (env_at 5000000) bot_page))
                  = fs @ [ConsoleWarn ''Bot detected via honeypot'']
               \<and> list_all is_FieldUI fs"
    by (auto split: prod.splits)
  from validateForm_fields_then_security
         [where cfg = CONFIG and e = "env_at 5000000" and pg = good_page] h2 h3 h4 h5
  have b: "fst (validateForm CONFIG (env_at 5000000) good_page)"
    by (auto split: prod.splits)
  from h1 a h2 b show ?thesis by blast
qed

theorem security_checks_first_counterexample:
  "snd (snd (validateForm CONFIG (env_at 5000000) bot_page)) =
     [FieldUI NameField False ''Name is required'', FieldUI EmailField True [],
      FieldUI SubjectField True [], FieldUI MessageField True [],
      ConsoleWarn ''Bot detected via honeypot'']
   \<and> snd (snd (validateForm_security_first CONFIG (env_at 5000000) bot_page)) =
     [ConsoleWarn ''Bot detected via honeypot'',
      FieldUI NameField False ''Name is required'', FieldUI EmailField True [],
      FieldUI SubjectField True [], FieldUI MessageField True []]"
  by code_simp

lemma validateForm_summary:
  assumes "validateForm cfg e pg = (valid, pg', tr)"
  shows "\<not> list_ex is_EmailSend tr \<and> \<not> list_ex is_StoreInsert tr
         \<and> els pg' = els pg
         \<and> isSubmitting (fstate pg') = isSubmitting (fstate pg)
         \<and> storage_ok (localStorage pg') = storage_ok (localStorage pg)
         \<and> (valid \<longrightarrow> filter is_Notify tr = [])
         \<and> (honeypot (els pg) = [] \<longrightarrow> getSubmissionHistory pg'
               = (if storage_ok (localStorage pg) then recent e pg else []))
         \<and> (honeypot (els pg) = [] \<and> \<not> length (recent e pg) < maxSubmissionsPerHour cfg \<longrightarrow>
               Notify Error ''Too many submissions. Please wait before trying again.'' \<in> set tr)
         \<and> valid = (list_all (field_passes cfg (els pg)) form_inputs \<and> honeypot (els pg) = []
                    \<and> length (recent e pg) < maxSubmissionsPerHour cfg
                    \<and> checkMessageContent (els pg))"
proof -
  obtain ok pg1 ev1 where a: "validateFields cfg form_inputs pg = (ok, pg1, ev1)"
    by (cases "validateFields cfg form_inputs pg") auto
  note f = validateFields_frame [OF a]
  note g = FieldUI_only [of ev1]
  from f have h: "getSubmissionHistory pg1 = getSubmissionHistory pg"
    by (simp add: getSubmissionHistory_def)
  then have r: "recent e pg1 = recent e pg" by (simp add: recent_def)
  note s = saveSubmissionHistory_frame [of "recent e pg" pg1]
    saveSubmissionHistory_history [of "recent e pg" pg1]
  obtain sec pg2 ev2 where q: "performSecurityChecks cfg e pg1 = (sec, pg2, ev2)"
    by (cases "performSecurityChecks cfg e pg1") auto
  from assms a q have v: "valid = (ok \<and> sec)" "pg' = pg2" "tr = ev1 @ ev2"
    by (simp_all add: validateForm_eq)
  show ?thesis
  proof (cases "honeypot (els pg) = []")
    case False
    with f have "honeypot (els pg1) \<noteq> []" by simp
    with q have "sec = False" "pg2 = pg1" "ev2 = [ConsoleWarn ''Bot detected via honeypot'']"
      by (simp_all add: performSecurityChecks_eq)
    with False f g v show ?thesis by simp
  next
    case True
    with f have hp: "honeypot (els pg1) = []" by simp
    have "(sec, pg2, ev2) =
            (length (recent e pg) < maxSubmissionsPerHour cfg \<and> checkMessageContent (els pg),
             fst (saveSubmissionHistory (recent e pg) pg1),
             snd (saveSubmissionHistory (recent e pg) pg1)
             @ (if \<not> length (recent e pg) < maxSubmissionsPerHour cfg then
                  [Notify Error ''Too many submissions. Please wait before trying again.'']
                else if \<not> checkMessageContent (els pg) then
                  [Notify Error ''Message contains prohibited content.'']
                else []))"
      unfolding q [symmetric] using hp r f by (simp add: performSecurityChecks_eq)
    then have sec: "sec = (length (recent e pg) < maxSubmissionsPerHour cfg
                                  \<and> checkMessageContent (els pg))"
      and pg2: "pg2 = fst (saveSubmissionHistory (recent e pg) pg1)"
      and ev2: "ev2 = snd (saveSubmissionHistory (recent e pg) pg1)
         @ (if \<not> length (recent e pg) < maxSubmissionsPerHour cfg then
              [Notify Error ''Too many submissions. Please wait before trying again.'']
            else if \<not> checkMessageContent (els pg) then
              [Notify Error ''Message contains prohibited content.'']
            else [])"
      by simp_all
    from ev2 s have e1: "\<not> list_ex is_EmailSend ev2" "\<not> list_ex is_StoreInsert ev2"
      by simp_all
    from ev2 s sec have e2: "sec \<longrightarrow> filter is_Notify ev2 = []" by simp
    from ev2 have e3: "\<not> length (recent e pg) < maxSubmissionsPerHour cfg \<longrightarrow>
        Notify Error ''Too many submissions. Please wait before trying again.'' \<in> set ev2"
      by simp
    from True f g v sec pg2 s e1 e2 e3 show ?thesis by simp
  qed
qed

lemma upper_char_n: "upper_char CHR ''n'' = CHR ''N''"
  by code_simp

lemma show_nat_2: "show_nat 2 = ''2''"
  by code_simp

lemma validateField_short_name:
  assumes "length (trim (nameField (els pg))) = 1"
  shows "validateField CONFIG NameField pg =
           (False,
            pg\<lparr>fstate := (fstate pg)\<lparr>validationErrors :=
                  AList.update ''name'' ''Name must be at least 2 characters''
                    (validationErrors (fstate pg)), isValid := False\<rparr>\<rparr>,
            [FieldUI NameField False ''Name must be at least 2 characters''])"
proof -
  from assms have n: "trim (nameField (els pg)) \<noteq> []" by auto
  have v: "field_verdict \<lparr>minLength = Some 2, maxLength = Some 50, pattern = Some name_pattern\<rparr>
             ''name'' (trim (nameField (els pg)))
           = (False, ''Name must be at least 2 characters'')"
    using assms n by (simp add: field_verdict_def bound_def upper_char_n show_nat_2)
  have u: "AList.update ''name'' ''Name must be at least 2 characters''
             (validationErrors (fstate pg)) \<noteq> []"
    by (cases "validationErrors (fstate pg)") auto
  show ?thesis
    using u by (simp add: validateField_def CONFIG_def v updateFormValidity_def Let_def)
qed

text \<open>
  Claim C9, as amended. A name of one character after trimming (one under the minimum
  of 2) fails the validation of the name field with the field error
  "Name must be at least 2 characters", and the submission is rejected: no mail is sent
  and nothing is inserted in the store; the field error is the first effect of the
  submission and the notification "Please correct the errors above" its last. The name
  "Jo" has two characters and passes.
\<close>

theorem one_character_name_rejected:
  assumes "length (trim (nameField (els pg))) = 1"
  shows "snd (snd (validateField CONFIG NameField pg))
           = [FieldUI NameField False ''Name must be at least 2 characters'']
         \<and> \<not> fst (validateField CONFIG NameField pg)
         \<and> (case handleFormSubmit CONFIG e pg of
              (pg', tr) \<Rightarrow>
                \<not> list_ex is_EmailSend tr \<and> \<not> list_ex is_StoreInsert tr
                \<and> (\<not> isSubmitting (fstate pg) \<longrightarrow>
                      hd tr = FieldUI NameField False ''Name must be at least 2 characters''
                      \<and> last tr = Notify Error ''Please correct the errors above''))"
proof -
  note v = validateField_short_name [OF assms]
  from v have np: "\<not> field_passes CONFIG (els pg) NameField"
    using validateField_verdict [of CONFIG NameField pg] by simp
  obtain valid pg1 ev where a: "validateForm CONFIG e pg = (valid, pg1, ev)"
    by (cases "validateForm CONFIG e pg") auto
  from validateForm_summary [OF a] np have b: "\<not> valid" "\<not> list_ex is_EmailSend ev"
    "\<not> list_ex is_StoreInsert ev"
    by (simp_all add: form_inputs_def)
  have c: "\<exists>rest. ev = FieldUI NameField False ''Name must be at least 2 characters'' # rest"
    using a [symmetric] by (simp add: validateForm_eq form_inputs_def v case_prod_beta Let_def)
  then obtain rest where d: "ev = FieldUI NameField False ''Name must be at least 2 characters'' # rest"
    by blast
  have "case handleFormSubmit CONFIG e pg of
          (pg', tr) \<Rightarrow>
            \<not> list_ex is_EmailSend tr \<and> \<not> list_ex is_StoreInsert tr
            \<and> (\<not> isSubmitting (fstate pg) \<longrightarrow>
                  hd tr = FieldUI NameField False ''Name must be at least 2 characters''
                  \<and> last tr = Notify Error ''Please correct the errors above'')"
  proof (cases "isSubmitting (fstate pg)")
    case True
    then show ?thesis by (simp add: handleFormSubmit_def)
  next
    case False
    with a b d show ?thesis by (simp add: handleFormSubmit_def)
  qed
  with v show ?thesis by simp
qed

theorem one_character_name_rejected_witness:
  "length (trim (nameField (els short_name_page))) = 1
   \<and> snd (snd (validateField CONFIG NameField short_name_page))
       = [FieldUI NameField False ''Name must be at least 2 characters'']
   \<and> \<not> list_ex is_EmailSend (snd (handleFormSubmit CONFIG (env_at 5000000) short_name_page))"
proof -
  have h: "length (trim (nameField (els short_name_page))) = 1"
    by code_simp
  from one_character_name_rejected [OF h, where e = "env_at 5000000"] h show ?thesis
    by (auto split: prod.splits)
qed

theorem name_Jo_rejected_counterexample:
  "nameField (els good_page) = ''Jo''
   \<and> validateField CONFIG NameField good_page
       = (True, good_page\<lparr>fstate := idle\<lparr>isValid := True\<rparr>\<rparr>, [FieldUI NameField True []])
   \<and> sent (snd (handleFormSubmit CONFIG (env_at 5000000) good_page))"
  by code_simp

lemma validateForm_store_answer:
  "validateForm cfg (e\<lparr>store_answer := a\<rparr>) pg = validateForm cfg e pg"
  by (simp add: validateForm_eq performSecurityChecks_eq recent_def Let_def)

text \<open>
  Claim C8. For a submission that the form accepts, with the mail service loaded: a
  status other than 200 from the mail-send call fails the submission (the store is not
  called, no time is recorded, the form keeps its values and the only notification is
  the error "Failed to send message. Please try again later."), while after a status
  200 the submission succeeds whatever the store call does: whether the store is
  missing, throws or answers with an error, the time is recorded, the form is reset and
  the only notification is the success message.
\<close>

theorem mail_failure_fails_store_failure_does_not:
  assumes "\<not> isSubmitting (fstate pg)"
    and "validateForm cfg e pg = (True, pg1, ev1)"
    and "emailjs_loaded e"
    and "send_answer e = SendResponse status"
  shows "case handleFormSubmit cfg (e\<lparr>store_answer := a\<rparr>) pg of
           (pg', tr) \<Rightarrow>
             list_ex is_EmailSend tr
             \<and> (if status \<noteq> 200 then
                  \<not> list_ex is_StoreInsert tr
                  \<and> filter is_Notify tr
                      = [Notify Error ''Failed to send message. Please try again later.'']
                  \<and> localStorage pg' = localStorage pg1 \<and> els pg' = els pg
                else
                  filter is_Notify tr
                      = [Notify Success ''Message sent successfully! Thank you for reaching out.'']
                  \<and> getSubmissionHistory pg'
                      = (if storage_ok (localStorage pg)
                         then getSubmissionHistory pg1 @ [now_record e] else [])
                  \<and> els pg' = empty_form
                  \<and> pg' = fst (handleFormSubmit cfg e pg))"
proof -
  note s = validateForm_summary [OF assms(2)]
  from s have n: "filter is_Notify ev1 = []" "\<not> list_ex is_StoreInsert ev1" by simp_all
  have sm: "filter is_Notify (storeMessage x fd) = []" for x fd
    by (simp add: storeMessage_def Let_def split: store_result.splits option.splits)
  show ?thesis
  proof (cases "status = 200")
    case True
    with assms s n sm show ?thesis
      by (simp add: handleFormSubmit_def validateForm_store_answer sendEmail_def Let_def
            recordSubmission_def saveSubmissionHistory_def getSubmissionHistory_def
            setSubmittingState_def resetForm_def empty_form_def collectFormData_def
            updateFormValidity_def)
  next
    case False
    with assms s n show ?thesis
      by (simp add: handleFormSubmit_def validateForm_store_answer sendEmail_def Let_def
            setSubmittingState_def)
  qed
qed

theorem mail_failure_fails_store_failure_does_not_witness:
  "\<not> isSubmitting (fstate good_page)
   \<and> fst (validateForm CONFIG (env_at 5000000) good_page)
   \<and> emailjs_loaded (env_at 5000000)
   \<and> send_answer (env_at 5000000) = SendResponse 200
   \<and> filter is_Notify
        (snd (handleFormSubmit CONFIG ((env_at 5000000)\<lparr>store_answer := StoreInsertThrows\<rparr>)
                good_page))
       = [Notify Success ''Message sent successfully! Thank you for reaching out.'']"
proof -
  have h1: "\<not> isSubmitting (fstate good_page)"
    by (simp add: good_page_def idle_def)
  have h2: "fst (validateForm CONFIG (env_at 5000000) good_page)"
    by code_simp
  then obtain pg1 ev1 where h2': "validateForm CONFIG (env_at 5000000) good_page = (True, pg1, ev1)"
    by (cases "validateForm CONFIG (env_at 5000000) good_page") auto
  have h3: "emailjs_loaded (env_at 5000000)" "send_answer (env_at 5000000) = SendResponse 200"
    by (simp_all add: env_at_def)
  from mail_failure_fails_store_failure_does_not
         [OF h1 h2' h3, where a = StoreInsertThrows] h1 h2 h3
  show ?thesis by (auto split: prod.splits)
qed



lemma recent_all:
  "\<forall>t \<in> set (getSubmissionHistory pg). now_check e - 60 * 60 * 1000 < t \<Longrightarrow>
     recent e pg = getSubmissionHistory pg"
  by (simp add: recent_def)










section \<open>Properties of the content check\<close>

lemma tails_ex: "list_ex P (tails s) \<longleftrightarrow> (\<exists>xs ys. s = xs @ ys \<and> P ys)"
proof (induction s)
  case Nil
  then show ?case by simp
next
  case (Cons c cs)
  have "(\<exists>xs ys. c # cs = xs @ ys \<and> P ys) \<longleftrightarrow> P (c # cs) \<or> (\<exists>xs ys. cs = xs @ ys \<and> P ys)"
    by (auto simp: Cons_eq_append_conv)
  with Cons show ?case by simp
qed

lemma starts_with_iff: "starts_with p s \<longleftrightarrow> (\<exists>zs. s = p @ zs)"
proof
  assume "starts_with p s"
  then have "s = p @ drop (length p) s"
    by (metis append_take_drop_id starts_with_def)
  then show "\<exists>zs. s = p @ zs" ..
next
  assume "\<exists>zs. s = p @ zs"
  then show "starts_with p s" by (auto simp: starts_with_def)
qed

lemma url_at_iff:
  "url_at s \<longleftrightarrow>
     (\<exists>c zs. (s = ''http://'' @ c # zs \<or> s = ''https://'' @ c # zs) \<and> \<not> is_space c)"
proof
  assume "url_at s"
  then consider (a) "starts_with ''http://'' s" "case drop 7 s of [] \<Rightarrow> False | c # _ \<Rightarrow> \<not> is_space c"
    | (b) "starts_with ''https://'' s" "case drop 8 s of [] \<Rightarrow> False | c # _ \<Rightarrow> \<not> is_space c"
    by (auto simp: url_at_def)
  then show "\<exists>c zs. (s = ''http://'' @ c # zs \<or> s = ''https://'' @ c # zs) \<and> \<not> is_space c"
  proof cases
    case a
    from a(1) obtain r where r: "s = ''http://'' @ r" by (auto simp: starts_with_iff)
    with a(2) obtain c zs where "r = c # zs" "\<not> is_space c" by (cases r) auto
    with r show ?thesis by blast
  next
    case b
    from b(1) obtain r where r: "s = ''https://'' @ r" by (auto simp: starts_with_iff)
    with b(2) obtain c zs where "r = c # zs" "\<not> is_space c" by (cases r) auto
    with r show ?thesis by blast
  qed
next
  assume "\<exists>c zs. (s = ''http://'' @ c # zs \<or> s = ''https://'' @ c # zs) \<and> \<not> is_space c"
  then show "url_at s" by (auto simp: url_at_def starts_with_def)
qed

lemma takeWhile_run:
  "n \<le> length (takeWhile (\<lambda>x. x = c) cs) \<longleftrightarrow> (\<exists>zs. cs = replicate n c @ zs)"
proof (induction n arbitrary: cs)
  case 0
  then show ?case by simp
next
  case (Suc n)
  show ?case
  proof (cases cs)
    case Nil
    then show ?thesis by simp
  next
    case (Cons d ds)
    with Suc [of ds] show ?thesis by auto
  qed
qed

lemma run_at_iff:
  "run_at s \<longleftrightarrow> (\<exists>c zs. s = replicate 11 c @ zs \<and> \<not> is_line_terminator c)"
proof -
  have e: "replicate 11 c = c # replicate 10 c" for c :: char
    by (simp add: numeral_eq_Suc)
  show ?thesis
  proof (cases s)
    case Nil
    then show ?thesis by (simp add: run_at_def e)
  next
    case (Cons d ds)
    then show ?thesis by (auto simp: run_at_def e takeWhile_run)
  qed
qed

lemma keyword_at_iff:
  "keyword_at s \<longleftrightarrow>
     (\<exists>k zs. k \<in> set spam_keywords \<and> s = k @ zs \<and> (zs = [] \<or> \<not> is_word (hd zs)))"
proof -
  have "(starts_with k s \<and> (case drop (length k) s of [] \<Rightarrow> True | c # _ \<Rightarrow> \<not> is_word c))
        \<longleftrightarrow> (\<exists>zs. s = k @ zs \<and> (zs = [] \<or> \<not> is_word (hd zs)))" for k
  proof
    assume a: "starts_with k s \<and> (case drop (length k) s of [] \<Rightarrow> True | c # _ \<Rightarrow> \<not> is_word c)"
    then obtain zs where z: "s = k @ zs" by (auto simp: starts_with_iff)
    with a have "zs = [] \<or> \<not> is_word (hd zs)" by (cases zs) auto
    with z show "\<exists>zs. s = k @ zs \<and> (zs = [] \<or> \<not> is_word (hd zs))" by blast
  next
    assume "\<exists>zs. s = k @ zs \<and> (zs = [] \<or> \<not> is_word (hd zs))"
    then obtain zs where z: "s = k @ zs" "zs = [] \<or> \<not> is_word (hd zs)" by blast
    then show "starts_with k s \<and> (case drop (length k) s of [] \<Rightarrow> True | c # _ \<Rightarrow> \<not> is_word c)"
      by (cases zs) (auto simp: starts_with_def)
  qed
  then show ?thesis by (auto simp: keyword_at_def list_ex_iff)
qed

lemma keyword_at_Nil: "\<not> keyword_at []"
  by (simp add: keyword_at_def spam_keywords_def starts_with_def)

lemma scan_keyword_iff:
  "scan_keyword b s \<longleftrightarrow>
     (\<exists>xs ys. s = xs @ ys \<and> keyword_at ys \<and> (if xs = [] then \<not> b else \<not> is_word (last xs)))"
proof (induction s arbitrary: b)
  case Nil
  then show ?case by (simp add: keyword_at_Nil)
next
  case (Cons c cs)
  have "(\<exists>xs ys. c # cs = xs @ ys \<and> keyword_at ys
            \<and> (if xs = [] then \<not> b else \<not> is_word (last xs)))
        \<longleftrightarrow> (\<not> b \<and> keyword_at (c # cs))
            \<or> (\<exists>xs ys. cs = xs @ ys \<and> keyword_at ys
                  \<and> (if xs = [] then \<not> is_word c else \<not> is_word (last xs)))"
    (is "?L \<longleftrightarrow> ?A \<or> ?B")
  proof
    assume ?L
    then obtain xs ys where h: "c # cs = xs @ ys" "keyword_at ys"
      "if xs = [] then \<not> b else \<not> is_word (last xs)" by blast
    show "?A \<or> ?B"
    proof (cases xs)
      case Nil
      with h show ?thesis by simp
    next
      case (Cons d ds)
      with h have "cs = ds @ ys" "if ds = [] then \<not> is_word c else \<not> is_word (last ds)"
        by (auto split: if_splits)
      with h(2) show ?thesis by blast
    qed
  next
    assume "?A \<or> ?B"
    then show ?L
    proof
      assume ?A
      then have "c # cs = [] @ (c # cs) \<and> keyword_at (c # cs)
                 \<and> (if ([]::string) = [] then \<not> b else \<not> is_word (last []))" by simp
      then show ?L by blast
    next
      assume ?B
      then obtain xs ys where h: "cs = xs @ ys" "keyword_at ys"
        "if xs = [] then \<not> is_word c else \<not> is_word (last xs)" by blast
      then have "c # cs = (c # xs) @ ys \<and> keyword_at ys
                 \<and> (if c # xs = [] then \<not> b else \<not> is_word (last (c # xs)))"
        by (auto split: if_splits)
      then show ?L by blast
    qed
  qed
  with Cons [of "is_word c"] show ?case by simp
qed

lemma contains_keyword_iff: "scan_keyword False m \<longleftrightarrow> contains_keyword m"
proof
  assume "scan_keyword False m"
  then obtain xs ys where h: "m = xs @ ys" "keyword_at ys" "xs = [] \<or> \<not> is_word (last xs)"
    by (auto simp: scan_keyword_iff split: if_splits)
  from h(2) obtain k zs where k: "k \<in> set spam_keywords" "ys = k @ zs"
    "zs = [] \<or> \<not> is_word (hd zs)" by (auto simp: keyword_at_iff)
  with h show "contains_keyword m" unfolding contains_keyword_def by blast
next
  assume "contains_keyword m"
  then obtain xs k ys where h: "m = xs @ k @ ys" "k \<in> set spam_keywords"
    "xs = [] \<or> \<not> is_word (last xs)" "ys = [] \<or> \<not> is_word (hd ys)"
    unfolding contains_keyword_def by blast
  then have "keyword_at (k @ ys)" by (auto simp: keyword_at_iff)
  with h have "m = xs @ (k @ ys) \<and> keyword_at (k @ ys)
               \<and> (if xs = [] then \<not> False else \<not> is_word (last xs))" by auto
  then show "scan_keyword False m" unfolding scan_keyword_iff by blast
qed

lemma contains_url_iff: "list_ex url_at (tails m) \<longleftrightarrow> contains_url m"
  unfolding tails_ex url_at_iff contains_url_def by blast

lemma contains_run_iff: "list_ex run_at (tails m) \<longleftrightarrow> contains_run 11 m"
  unfolding tails_ex run_at_iff contains_run_def by blast

text \<open>
  Claim C6, as amended. The content check looks at the message in lower case and
  rejects it exactly when it contains a denylisted word or phrase standing as a whole
  word, or \<open>http://\<close> or \<open>https://\<close> followed by a character that is not white space, or a
  run of 11 or more copies of one character (other than a line terminator, and the same
  up to case). A run of exactly 10 identical characters is not rejected.
\<close>

theorem content_check_rejects_exactly:
  "checkMessageContent elems \<longleftrightarrow>
     \<not> (contains_keyword (toLowerCase (messageField elems))
        \<or> contains_url (toLowerCase (messageField elems))
        \<or> contains_run 11 (toLowerCase (messageField elems)))"
  by (simp add: checkMessageContent_def prohibitedPatterns_def Let_def
        contains_keyword_iff contains_url_iff contains_run_iff)

theorem content_check_rejects_exactly_witness:
  "contains_run 11 (toLowerCase ''AAAAAaaaaaa'')
   \<and> \<not> checkMessageContent (good_values\<lparr>messageField := ''AAAAAaaaaaa''\<rparr>)"
proof -
  have l: "toLowerCase ''AAAAAaaaaaa'' = [] @ replicate 11 CHR ''a'' @ []"
    by code_simp
  have n: "\<not> is_line_terminator CHR ''a''" by code_simp
  from l n have r: "contains_run 11 (toLowerCase ''AAAAAaaaaaa'')"
    unfolding contains_run_def by blast
  from content_check_rejects_exactly [of "good_values\<lparr>messageField := ''AAAAAaaaaaa''\<rparr>"] r
  show ?thesis by simp
qed

theorem run_of_ten_counterexample:
  "replicate 10 CHR ''a'' = ''aaaaaaaaaa''
   \<and> checkMessageContent (good_values\<lparr>messageField := ''aaaaaaaaaa''\<rparr>)"
  by code_simp


section \<open>Properties of the data store client\<close>

lemma build_payload_ok:
  assumes "pd_url d = Some u" and "parses u"
    and "falsy (pd_image_url d) \<or> (\<exists>i. pd_image_url d = Some i \<and> parses i)"
  shows "\<exists>pl. build_payload parses d = Inr pl
           \<and> pl_name pl = sanitizeString (pd_name d)
           \<and> pl_description pl = sanitizeString (pd_description d)
           \<and> pl_category pl = sanitizeString (if falsy (pd_category d) then Some ''web''
                                              else pd_category d)
           \<and> pl_url pl = u"
  using assms
  by (auto simp: build_payload_def validateUrl_def isValidUrl_def falsy_def Let_def
           split: option.splits)

lemma build_payload_bad_image:
  assumes "pd_url d = Some u" and "parses u"
    and "pd_image_url d = Some i" and "i \<noteq> []" and "\<not> parses i"
  shows "build_payload parses d = Inl ''Invalid URL format''"
  using assms
  by (simp add: build_payload_def validateUrl_def isValidUrl_def Let_def)

text \<open>
  What \<open>createProject\<close> and \<open>updateProject\<close> do, case by case. The fields are
  validated as they were handed in, and a violation fails before any store call with a
  message that names the field: the name (3 to 100 characters), then the description
  (10 to 500), then the URL, whose message is "Valid project URL is required" when it
  is missing or does not parse. Name, description and category are sanitized (trimmed,
  angle brackets removed) only afterwards, for the row that is sent; an image URL that
  is given and does not parse fails there with "Invalid URL format", still before any
  store call. Otherwise exactly one store call is made.
\<close>

lemma createProject_cases:
  "(out_of_bounds 3 100 (pd_name d) \<longrightarrow>
      createProject parses now a d
        = (Inl ''Project name must be between 3 and 100 characters'', [])
      \<and> updateProject parses now a i d
        = (Inl ''Project name must be between 3 and 100 characters'', []))
   \<and> (\<not> out_of_bounds 3 100 (pd_name d) \<and> out_of_bounds 10 500 (pd_description d) \<longrightarrow>
      createProject parses now a d
        = (Inl ''Project description must be between 10 and 500 characters'', [])
      \<and> updateProject parses now a i d
        = (Inl ''Project description must be between 10 and 500 characters'', []))
   \<and> (\<not> out_of_bounds 3 100 (pd_name d) \<and> \<not> out_of_bounds 10 500 (pd_description d)
       \<and> (falsy (pd_url d) \<or> (\<exists>u. pd_url d = Some u \<and> \<not> parses u)) \<longrightarrow>
      createProject parses now a d = (Inl ''Valid project URL is required'', [])
      \<and> updateProject parses now a i d = (Inl ''Valid project URL is required'', []))
   \<and> (\<not> out_of_bounds 3 100 (pd_name d) \<and> \<not> out_of_bounds 10 500 (pd_description d)
       \<and> (\<exists>u. pd_url d = Some u \<and> u \<noteq> [] \<and> parses u)
       \<and> (\<exists>img. pd_image_url d = Some img \<and> img \<noteq> [] \<and> \<not> parses img) \<longrightarrow>
      createProject parses now a d = (Inl ''Invalid URL format'', [])
      \<and> updateProject parses now a i d = (Inl ''Invalid URL format'', []))
   \<and> (\<not> out_of_bounds 3 100 (pd_name d) \<and> \<not> out_of_bounds 10 500 (pd_description d)
       \<and> (\<exists>u. pd_url d = Some u \<and> u \<noteq> [] \<and> parses u)
       \<and> (falsy (pd_image_url d) \<or> (\<exists>img. pd_image_url d = Some img \<and> parses img)) \<longrightarrow>
      (\<exists>pl. createProject parses now a d = (first_row a, [Insert pl now])
            \<and> updateProject parses now a i d = (first_row a, [Update i pl now])
            \<and> pl_name pl = sanitizeString (pd_name d)
            \<and> pl_description pl = sanitizeString (pd_description d)
            \<and> pl_category pl = sanitizeString (if falsy (pd_category d) then Some ''web''
                                              else pd_category d)
            \<and> Some (pl_url pl) = pd_url d))"
proof (intro conjI impI)
  assume "out_of_bounds 3 100 (pd_name d)"
  then show "createProject parses now a d
        = (Inl ''Project name must be between 3 and 100 characters'', [])"
    "updateProject parses now a i d
        = (Inl ''Project name must be between 3 and 100 characters'', [])"
    by (simp_all add: createProject_def updateProject_def validateProjectData_def)
next
  assume "\<not> out_of_bounds 3 100 (pd_name d) \<and> out_of_bounds 10 500 (pd_description d)"
  then show "createProject parses now a d
        = (Inl ''Project description must be between 10 and 500 characters'', [])"
    "updateProject parses now a i d
        = (Inl ''Project description must be between 10 and 500 characters'', [])"
    by (simp_all add: createProject_def updateProject_def validateProjectData_def)
next
  assume "\<not> out_of_bounds 3 100 (pd_name d) \<and> \<not> out_of_bounds 10 500 (pd_description d)
       \<and> (falsy (pd_url d) \<or> (\<exists>u. pd_url d = Some u \<and> \<not> parses u))"
  then show "createProject parses now a d = (Inl ''Valid project URL is required'', [])"
    "updateProject parses now a i d = (Inl ''Valid project URL is required'', [])"
    by (auto simp: createProject_def updateProject_def validateProjectData_def falsy_def
          isValidUrl_def split: option.splits)
next
  assume h: "\<not> out_of_bounds 3 100 (pd_name d) \<and> \<not> out_of_bounds 10 500 (pd_description d)
       \<and> (\<exists>u. pd_url d = Some u \<and> u \<noteq> [] \<and> parses u)
       \<and> (\<exists>img. pd_image_url d = Some img \<and> img \<noteq> [] \<and> \<not> parses img)"
  then obtain u img where u: "pd_url d = Some u" "u \<noteq> []" "parses u"
    and g: "pd_image_url d = Some img" "img \<noteq> []" "\<not> parses img" by blast
  from h u have v: "validateProjectData parses d = Inr ()"
    by (simp add: validateProjectData_def isValidUrl_def)
  from build_payload_bad_image [OF u(1) u(3) g] v
  show "createProject parses now a d = (Inl ''Invalid URL format'', [])"
    "updateProject parses now a i d = (Inl ''Invalid URL format'', [])"
    by (simp_all add: createProject_def updateProject_def)
next
  assume h: "\<not> out_of_bounds 3 100 (pd_name d) \<and> \<not> out_of_bounds 10 500 (pd_description d)
       \<and> (\<exists>u. pd_url d = Some u \<and> u \<noteq> [] \<and> parses u)
       \<and> (falsy (pd_image_url d) \<or> (\<exists>img. pd_image_url d = Some img \<and> parses img))"
  then obtain u where u: "pd_url d = Some u" "u \<noteq> []" "parses u" by blast
  from h have g: "falsy (pd_image_url d) \<or> (\<exists>i. pd_image_url d = Some i \<and> parses i)" by blast
  from h u have v: "validateProjectData parses d = Inr ()"
    by (simp add: validateProjectData_def isValidUrl_def)
  from build_payload_ok [OF u(1) u(3) g] obtain pl where
    pl: "build_payload parses d = Inr pl" "pl_name pl = sanitizeString (pd_name d)"
      "pl_description pl = sanitizeString (pd_description d)"
      "pl_category pl = sanitizeString (if falsy (pd_category d) then Some ''web''
                                              else pd_category d)"
      "pl_url pl = u" by blast
  with v u have "createProject parses now a d = (first_row a, [Insert pl now])
            \<and> updateProject parses now a i d = (first_row a, [Update i pl now])
            \<and> pl_name pl = sanitizeString (pd_name d)
            \<and> pl_description pl = sanitizeString (pd_description d)
            \<and> pl_category pl = sanitizeString (if falsy (pd_category d) then Some ''web''
                                              else pd_category d)
            \<and> Some (pl_url pl) = pd_url d"
    by (simp add: createProject_def updateProject_def)
  then show "\<exists>pl. createProject parses now a d = (first_row a, [Insert pl now])
            \<and> updateProject parses now a i d = (first_row a, [Update i pl now])
            \<and> pl_name pl = sanitizeString (pd_name d)
            \<and> pl_description pl = sanitizeString (pd_description d)
            \<and> pl_category pl = sanitizeString (if falsy (pd_category d) then Some ''web''
                                              else pd_category d)
            \<and> Some (pl_url pl) = pd_url d" by blast
qed


lemma createProject_not_a_url:
  "createProject scheme_rule now a (good_project\<lparr>pd_url := Some ''not-a-url''\<rparr>)
     = (Inl ''Valid project URL is required'', [])"
proof -
  let ?d = "good_project\<lparr>pd_url := Some ''not-a-url''\<rparr>"
  have h: "\<not> out_of_bounds 3 100 (pd_name ?d)" "\<not> out_of_bounds 10 500 (pd_description ?d)"
    "\<not> scheme_rule ''not-a-url''" "pd_url ?d = Some ''not-a-url''"
    by code_simp+
  from createProject_cases
         [where d = ?d and parses = scheme_rule and now = now and a = a and i = "''p1''"] h
  show ?thesis by blast
qed

lemma padded_name_validates:
  "validateProjectData scheme_rule (good_project\<lparr>pd_name := Some ''  a  ''\<rparr>) = Inr ()"
  "validateProjectData scheme_rule (good_project\<lparr>pd_name := Some ''   ''\<rparr>) = Inr ()"
  by code_simp+

lemma padded_name_payload:
  "build_payload scheme_rule (good_project\<lparr>pd_name := Some ''  a  ''\<rparr>)
     = Inr \<lparr> pl_name = ''a'', pl_description = ''A personal site'',
             pl_url = ''https://example.com'', pl_image_url = None,
             pl_technologies = [''js''], pl_category = ''web'', pl_is_featured = False \<rparr>"
  "build_payload scheme_rule (good_project\<lparr>pd_name := Some ''   ''\<rparr>)
     = Inr \<lparr> pl_name = [], pl_description = ''A personal site'',
             pl_url = ''https://example.com'', pl_image_url = None,
             pl_technologies = [''js''], pl_category = ''web'', pl_is_featured = False \<rparr>"
  by code_simp+

lemma padded_name_sanitized_first:
  "validateProjectData scheme_rule (sanitize_fields (good_project\<lparr>pd_name := Some ''  a  ''\<rparr>))
     = Inl ''Project name must be between 3 and 100 characters''"
  "validateProjectData scheme_rule (sanitize_fields (good_project\<lparr>pd_name := Some ''   ''\<rparr>))
     = Inl ''Project name must be between 3 and 100 characters''"
  by code_simp+

text \<open>
  Claim C3. The claim asks that the string fields are sanitized first and validated
  after, so that a violated bound fails the operation before any network call. The
  code validates the name as handed in and sanitizes it afterwards: a name of one
  letter between blanks, or of three blanks, passes the check of 3 to 100 characters,
  and whatever the store answers, \<open>createProject\<close> and \<open>updateProject\<close> call the store
  with the name of one character, or with the empty name. In the order of the claim
  both inputs are rejected with the message of the name and no call is made.
\<close>

theorem createProject_sends_short_name:
  "createProject scheme_rule now a (good_project\<lparr>pd_name := Some ''  a  ''\<rparr>)
     = (first_row a,
        [Insert \<lparr> pl_name = ''a'', pl_description = ''A personal site'',
                  pl_url = ''https://example.com'', pl_image_url = None,
                  pl_technologies = [''js''], pl_category = ''web'',
                  pl_is_featured = False \<rparr> now])
   \<and> createProject scheme_rule now a (good_project\<lparr>pd_name := Some ''   ''\<rparr>)
     = (first_row a,
        [Insert \<lparr> pl_name = [], pl_description = ''A personal site'',
                  pl_url = ''https://example.com'', pl_image_url = None,
                  pl_technologies = [''js''], pl_category = ''web'',
                  pl_is_featured = False \<rparr> now])
   \<and> updateProject scheme_rule now a i (good_project\<lparr>pd_name := Some ''  a  ''\<rparr>)
     = (first_row a,
        [Update i \<lparr> pl_name = ''a'', pl_description = ''A personal site'',
                    pl_url = ''https://example.com'', pl_image_url = None,
                    pl_technologies = [''js''], pl_category = ''web'',
                    pl_is_featured = False \<rparr> now])
   \<and> createProject_sanitize_first scheme_rule now a
        (good_project\<lparr>pd_name := Some ''  a  ''\<rparr>)
     = (Inl ''Project name must be between 3 and 100 characters'', [])
   \<and> createProject_sanitize_first scheme_rule now a
        (good_project\<lparr>pd_name := Some ''   ''\<rparr>)
     = (Inl ''Project name must be between 3 and 100 characters'', [])"
  by (simp add: createProject_def updateProject_def createProject_sanitize_first_def
        padded_name_validates padded_name_payload padded_name_sanitized_first)


lemma store_update_inactive_Nil: "store_update_inactive i now [] = []"
  by (simp add: store_update_inactive_def)

lemma store_update_inactive_Cons:
  "store_update_inactive i now (r # tbl) =
     (if row_id r = i then r\<lparr>is_active := False, updated_at := now\<rparr> else r)
     # store_update_inactive i now tbl"
  by (simp add: store_update_inactive_def)


lemma updated_inactive:
  assumes "r \<in> set (store_update_inactive i now tbl)" and "is_active r"
  shows "row_id r \<noteq> i \<and> r \<in> set tbl"
proof -
  from assms(1) obtain x where x: "x \<in> set tbl"
    and r: "r = (if row_id x = i then x\<lparr>is_active := False, updated_at := now\<rparr> else x)"
    unfolding store_update_inactive_def by auto
  show ?thesis
  proof (cases "row_id x = i")
    case True
    with r have "r = x\<lparr>is_active := False, updated_at := now\<rparr>" by simp
    then have "\<not> is_active r" by simp
    with assms(2) show ?thesis by simp
  next
    case False
    with r have "r = x" by simp
    with False x show ?thesis by simp
  qed
qed


lemma update_keeps_ids: "map row_id (store_update_inactive i now tbl) = map row_id tbl"
  by (induction tbl) (simp_all add: store_update_inactive_Nil store_update_inactive_Cons)

lemma update_keeps_contents: "map contents (store_update_inactive i now tbl) = map contents tbl"
  by (induction tbl) (simp_all add: store_update_inactive_Nil store_update_inactive_Cons)

lemma update_keeps_others:
  "filter (\<lambda>r. row_id r \<noteq> i) (store_update_inactive i now tbl)
     = filter (\<lambda>r. row_id r \<noteq> i) tbl"
  by (induction tbl) (simp_all add: store_update_inactive_Nil store_update_inactive_Cons)

lemma filter_map_inactive:
  assumes "\<forall>r \<in> set tbl. row_id r = i \<longrightarrow> \<not> is_active r"
  shows "filter (\<lambda>r. is_active r \<and> Q (contents r)) (store_update_inactive i now tbl)
           = filter (\<lambda>r. is_active r \<and> Q (contents r)) tbl"
  using assms
  by (induction tbl) (auto simp: store_update_inactive_def)

lemma store_select_inactive:
  assumes "\<forall>r \<in> set tbl. row_id r = i \<longrightarrow> \<not> is_active r"
  shows "store_select f (store_update_inactive i now tbl) = store_select f tbl"
  using filter_map_inactive
    [OF assms, of "\<lambda>c. falsy (f_category f) \<or> Some (pl_category c) = f_category f"]
  by (simp add: store_select_def)

lemma store_select_subset:
  "r \<in> set (store_select f tbl) \<Longrightarrow> r \<in> set tbl \<and> is_active r"
  by (auto simp: store_select_def Let_def split: option.splits if_splits dest: in_set_takeD)

lemma updated_all_inactive:
  "\<forall>r \<in> set (store_update_inactive i now tbl). row_id r = i \<longrightarrow> \<not> is_active r"
  using updated_inactive by blast

text \<open>
  Claim C7, as amended. \<open>deleteProject\<close> is a soft delete: it answers true and leaves
  every row in the table, with its identifier and contents, the rows of other
  identifiers untouched, the rows of the given identifier inactive. The deleted project
  is thereby removed from the visible active set: no later \<open>getProjects\<close> returns it.
  Deleting is idempotent: deleting again, or deleting a project that is already
  inactive, changes nothing that \<open>getProjects\<close> returns. When the store answers with an
  error, the error is thrown and the table is as before.
\<close>

theorem deleteProject_soft_and_idempotent:
  "(case deleteProject None now i tbl of
      (res, tbl') \<Rightarrow>
        res = Inr True
        \<and> map row_id tbl' = map row_id tbl \<and> map contents tbl' = map contents tbl
        \<and> filter (\<lambda>r. row_id r \<noteq> i) tbl' = filter (\<lambda>r. row_id r \<noteq> i) tbl
        \<and> (\<forall>r \<in> set tbl'. row_id r = i \<longrightarrow> \<not> is_active r)
        \<and> (\<forall>r \<in> set (getProjects f None tbl'). row_id r \<noteq> i)
        \<and> fst (deleteProject None now2 i tbl') = Inr True
        \<and> getProjects f None (snd (deleteProject None now2 i tbl')) = getProjects f None tbl'
        \<and> ((\<forall>r \<in> set tbl. row_id r = i \<longrightarrow> \<not> is_active r) \<longrightarrow>
              getProjects f None tbl' = getProjects f None tbl))
   \<and> deleteProject (Some err) now i tbl = (Inl err, tbl)"
proof -
  let ?t = "store_update_inactive i now tbl"
  note a = update_keeps_ids [of i now tbl] update_keeps_contents [of i now tbl]
    update_keeps_others [of i now tbl]
  note b = updated_all_inactive [of i now tbl]
  have c: "\<forall>r \<in> set (getProjects f None ?t). row_id r \<noteq> i"
  proof
    fix r assume "r \<in> set (getProjects f None ?t)"
    then have "r \<in> set ?t \<and> is_active r"
      by (simp add: getProjects_def store_select_subset)
    then show "row_id r \<noteq> i" using updated_inactive by blast
  qed
  from store_select_inactive [OF b, of f now2]
  have d: "getProjects f None (store_update_inactive i now2 ?t) = getProjects f None ?t"
    by (simp add: getProjects_def)
  have e: "(\<forall>r \<in> set tbl. row_id r = i \<longrightarrow> \<not> is_active r) \<longrightarrow>
              getProjects f None ?t = getProjects f None tbl"
    by (simp add: getProjects_def store_select_inactive)
  have f1: "deleteProject None now i tbl = (Inr True, ?t)"
    "deleteProject None now2 i ?t = (Inr True, store_update_inactive i now2 ?t)"
    "deleteProject (Some err) now i tbl = (Inl err, tbl)"
    by (simp_all add: deleteProject_def)
  show ?thesis
    unfolding f1 prod.case fst_conv snd_conv
    using a b c d e by blast
qed


theorem deleteProject_soft_and_idempotent_witness:
  "getProjects no_filters None [one_project] = [one_project]
   \<and> row_id one_project = ''p1''
   \<and> map row_id (snd (deleteProject None 2000 ''p1'' [one_project])) = [''p1'']
   \<and> list_all (\<lambda>r. row_id r \<noteq> ''p1'')
        (getProjects no_filters None (snd (deleteProject None 2000 ''p1'' [one_project])))"
proof -
  have g: "getProjects no_filters None [one_project] = [one_project]"
    "row_id one_project = ''p1''" by code_simp+
  note t = deleteProject_soft_and_idempotent
         [where now = 2000 and i = "''p1''" and tbl = "[one_project]" and f = no_filters
            and ?now2.0 = 3000 and err = "''e''"]
  from t g have a: "map row_id (snd (deleteProject None 2000 ''p1'' [one_project])) = [''p1'']"
    by (simp add: case_prod_beta)
  from t have b: "\<forall>r \<in> set (getProjects no_filters None
                       (snd (deleteProject None 2000 ''p1'' [one_project]))). row_id r \<noteq> ''p1''"
    by (simp add: case_prod_beta)
  from g a b show ?thesis by (simp add: list_all_iff)
qed

theorem delete_keeps_visible_counterexample:
  "getProjects no_filters None [one_project] = [one_project]
   \<and> fst (deleteProject None 2000 ''p1'' [one_project]) = Inr True
   \<and> getProjects no_filters None (snd (deleteProject None 2000 ''p1'' [one_project])) = []"
  by code_simp


section \<open>Properties of the admin session\<close>

lemma adminLogin_session:
  "adminLogin cfg e c st = (res, st', tr) \<Longrightarrow>
     st' = st \<or> (\<exists>u. st' = st\<lparr>adminSession := Some (createAdminSession e u)\<rparr>)"
  by (auto simp: adminLogin_def Let_def split: if_splits signIn_answer.splits)

lemma adminLogin_success_session:
  "adminLogin cfg e c st = (Inr r, st', tr) \<Longrightarrow>
     st' = st\<lparr>adminSession := Some (createAdminSession e (lr_user r))\<rparr>"
  by (auto simp: adminLogin_def Let_def split: if_splits signIn_answer.splits)

lemma not_logged_in_step:
  assumes "\<not> isAdminLoggedIn st" and "op \<noteq> OpVerify ''123456''"
  shows "\<not> isAdminLoggedIn (admin_step cfg st op)"
proof (cases op)
  case (OpLogin e c)
  obtain res st' tr where a: "adminLogin cfg e c st = (res, st', tr)"
    by (cases "adminLogin cfg e c st") auto
  from adminLogin_session [OF a] assms(1) have "\<not> isAdminLoggedIn st'"
    by (auto simp: isAdminLoggedIn_def createAdminSession_def)
  with a OpLogin show ?thesis by simp
next
  case (OpVerify c)
  with assms show ?thesis
    by (auto simp: verify2FACode_def validate2FACode_def isAdminLoggedIn_def
             split: option.splits)
next
  case OpLogout
  then show ?thesis by (simp add: adminLogout_def isAdminLoggedIn_def)
next
  case (OpAuthEvent ev)
  with assms(1) show ?thesis by (simp add: onAuthStateChange_def isAdminLoggedIn_def)
qed

lemma not_logged_in_run:
  "\<not> isAdminLoggedIn st \<Longrightarrow> OpVerify ''123456'' \<notin> set ops \<Longrightarrow>
     \<not> isAdminLoggedIn (foldl (admin_step cfg) st ops)"
proof (induction ops arbitrary: st)
  case Nil
  then show ?case by simp
next
  case (Cons op ops)
  from Cons.prems have "\<not> isAdminLoggedIn (admin_step cfg st op)"
    by (intro not_logged_in_step) auto
  with Cons show ?case by simp
qed

text \<open>
  Claim C10. \<open>isAdminLoggedIn\<close> is true exactly when there is an admin session whose
  second-factor flag is set. A successful \<open>adminLogin\<close> (whether the second factor is
  required or not) leaves a session created with the flag false, so \<open>isAdminLoggedIn\<close>
  is false right after it, and it stays false through logins, log-outs, auth events and
  verifications with any other code, until \<open>verify2FACode\<close> is called with the fixed
  code, which sets it.
\<close>

theorem isAdminLoggedIn_only_after_2FA:
  assumes "adminLogin cfg e c st = (Inr r, st', tr)"
    and "OpVerify ''123456'' \<notin> set ops"
  shows "(isAdminLoggedIn s \<longleftrightarrow> (\<exists>x. adminSession s = Some x \<and> is2FAVerified x))
         \<and> adminSession st' = Some (createAdminSession e (lr_user r))
         \<and> \<not> isAdminLoggedIn st'
         \<and> \<not> isAdminLoggedIn (foldl (admin_step cfg) st' ops)
         \<and> isAdminLoggedIn (snd (verify2FACode ''123456'' st'))"
proof -
  have a: "isAdminLoggedIn s \<longleftrightarrow> (\<exists>x. adminSession s = Some x \<and> is2FAVerified x)"
    by (cases "adminSession s") (simp_all add: isAdminLoggedIn_def)
  from adminLogin_success_session [OF assms(1)]
  have b: "adminSession st' = Some (createAdminSession e (lr_user r))" by simp
  then have c: "\<not> isAdminLoggedIn st'"
    by (simp add: isAdminLoggedIn_def createAdminSession_def)
  from c assms(2) have d: "\<not> isAdminLoggedIn (foldl (admin_step cfg) st' ops)"
    by (rule not_logged_in_run)
  from b have e: "isAdminLoggedIn (snd (verify2FACode ''123456'' st'))"
    by (simp add: verify2FACode_def validate2FACode_def isAdminLoggedIn_def)
  from a b c d e show ?thesis by blast
qed

theorem isAdminLoggedIn_only_after_2FA_witness:
  "adminLogin SUPABASE_CONFIG (login_env_for (Some ())) alice_credentials signed_out
     = (Inr \<lparr> lr_user = alice, lr_session = ''token'', requires2FA = True \<rparr>,
        \<lparr> adminSession = Some (createAdminSession (login_env_for (Some ())) alice) \<rparr>,
        [BlockedQuery, AttemptsQuery, SignIn ''alice@example.com'' ''secret'', AdminQuery ''u1'',
         AttemptsDelete, Send2FA ''alice@example.com''])
   \<and> OpVerify ''123456'' \<notin> set [OpVerify ''000000'', OpAuthEvent ''TOKEN_REFRESHED'']
   \<and> \<not> isAdminLoggedIn
         (foldl (admin_step SUPABASE_CONFIG)
            \<lparr> adminSession = Some (createAdminSession (login_env_for (Some ())) alice) \<rparr>
            [OpVerify ''000000'', OpAuthEvent ''TOKEN_REFRESHED''])
   \<and> isAdminLoggedIn
         (snd (verify2FACode ''123456''
            \<lparr> adminSession = Some (createAdminSession (login_env_for (Some ())) alice) \<rparr>))"
proof -
  have h1: "adminLogin SUPABASE_CONFIG (login_env_for (Some ())) alice_credentials signed_out
     = (Inr \<lparr> lr_user = alice, lr_session = ''token'', requires2FA = True \<rparr>,
        \<lparr> adminSession = Some (createAdminSession (login_env_for (Some ())) alice) \<rparr>,
        [BlockedQuery, AttemptsQuery, SignIn ''alice@example.com'' ''secret'', AdminQuery ''u1'',
         AttemptsDelete, Send2FA ''alice@example.com''])"
    by (simp add: adminLogin_def SUPABASE_CONFIG_def login_env_for_def alice_credentials_def
          signed_out_def isIPBlocked_def getFailedLoginAttempts_def falsy_def
          verifyAdminPrivileges_def alice_def)
  have h2: "OpVerify ''123456'' \<notin> set [OpVerify ''000000'', OpAuthEvent ''TOKEN_REFRESHED'']"
    by simp
  from isAdminLoggedIn_only_after_2FA [OF h1 h2, where s = signed_out] h1 h2
  show ?thesis by simp
qed

text \<open>
  Claim C4. When \<open>adminLogin\<close> reaches the credential check (the address is not
  blocked, fewer failed attempts than the ceiling, email and password given), the auth
  provider accepts the credentials, and the admin-membership query finds no active row
  for the user, then the next call after the query is the sign-out, a failed attempt is
  recorded, the session is left as it was and the login fails with
  "Access denied: Admin privileges required".
\<close>

theorem adminLogin_without_membership_denied:
  assumes "\<not> isIPBlocked e"
    and "getFailedLoginAttempts e < maxFailedAttempts cfg"
    and "email c = Some m" and "m \<noteq> []" and "password c = Some w" and "w \<noteq> []"
    and "signIn_result e = SignedIn u tok"
    and "admin_answer e = Resolves None"
  shows "adminLogin cfg e c st =
           (Inl ''Access denied: Admin privileges required'', st,
            [BlockedQuery, AttemptsQuery, SignIn m w, AdminQuery (user_id u), SignOut,
             AttemptInsert])"
  using assms
  by (simp add: adminLogin_def falsy_def verifyAdminPrivileges_def)

theorem adminLogin_without_membership_denied_witness:
  "\<not> isIPBlocked (login_env_for None)
   \<and> getFailedLoginAttempts (login_env_for None) < maxFailedAttempts SUPABASE_CONFIG
   \<and> email alice_credentials = Some ''alice@example.com''
   \<and> password alice_credentials = Some ''secret''
   \<and> signIn_result (login_env_for None) = SignedIn alice ''token''
   \<and> admin_answer (login_env_for None) = Resolves None
   \<and> adminLogin SUPABASE_CONFIG (login_env_for None) alice_credentials signed_out =
           (Inl ''Access denied: Admin privileges required'', signed_out,
            [BlockedQuery, AttemptsQuery, SignIn ''alice@example.com'' ''secret'',
             AdminQuery (user_id alice), SignOut, AttemptInsert])"
proof -
  have h: "\<not> isIPBlocked (login_env_for None)"
    "getFailedLoginAttempts (login_env_for None) < maxFailedAttempts SUPABASE_CONFIG"
    "email alice_credentials = Some ''alice@example.com''" "''alice@example.com'' \<noteq> []"
    "password alice_credentials = Some ''secret''" "''secret'' \<noteq> []"
    "signIn_result (login_env_for None) = SignedIn alice ''token''"
    "admin_answer (login_env_for None) = Resolves None"
    by (simp_all add: isIPBlocked_def getFailedLoginAttempts_def login_env_for_def
          SUPABASE_CONFIG_def alice_credentials_def)
  from adminLogin_without_membership_denied [OF h, of signed_out] h show ?thesis by simp
qed

end
